theory Spec2Isabelle
  imports Complex_Main
begin

section \<open>JavaScript numbers\<close>

text \<open>
  The simulation of \<^verbatim>\<open>PopulationEcologyPlatform.tsx\<close> computes with JavaScript numbers,
  IEEE 754 doubles. A number is modelled as a real or one of the three non-finite values.
  This section gives the exact operations on them: the finite case is real arithmetic, the
  non-finite cases follow IEEE 754 (a division by zero, an undetermined form such as
  \<open>0 * Infinity\<close>, and NaN propagating through every operation). The double-precision
  operations are these followed by rounding to the nearest double (section
  \<open>Double-precision arithmetic\<close>). The sign of zero is not modelled.

  The driver, its guards and its trajectory are stated over the exact operations: what is
  proved of them does not depend on how a result is rounded. What is proved of the values
  the step functions and the substep partition compute is stated over the double-precision
  operations.
\<close>

datatype jsnum = Fin real | PInf | NInf | NaN

fun jneg :: "jsnum \<Rightarrow> jsnum" where
  "jneg (Fin x) = Fin (- x)"
| "jneg PInf = NInf"
| "jneg NInf = PInf"
| "jneg NaN = NaN"

fun jadd :: "jsnum \<Rightarrow> jsnum \<Rightarrow> jsnum" where
  "jadd (Fin x) (Fin y) = Fin (x + y)"
| "jadd (Fin x) PInf = PInf"
| "jadd (Fin x) NInf = NInf"
| "jadd PInf (Fin y) = PInf"
| "jadd PInf PInf = PInf"
| "jadd PInf NInf = NaN"
| "jadd NInf (Fin y) = NInf"
| "jadd NInf PInf = NaN"
| "jadd NInf NInf = NInf"
| "jadd NaN y = NaN"
| "jadd x NaN = NaN"

definition jsub :: "jsnum \<Rightarrow> jsnum \<Rightarrow> jsnum" where
  "jsub x y = jadd x (jneg y)"

fun jmul :: "jsnum \<Rightarrow> jsnum \<Rightarrow> jsnum" where
  "jmul (Fin x) (Fin y) = Fin (x * y)"
| "jmul (Fin x) PInf = (if x = 0 then NaN else if 0 < x then PInf else NInf)"
| "jmul (Fin x) NInf = (if x = 0 then NaN else if 0 < x then NInf else PInf)"
| "jmul PInf (Fin y) = (if y = 0 then NaN else if 0 < y then PInf else NInf)"
| "jmul NInf (Fin y) = (if y = 0 then NaN else if 0 < y then NInf else PInf)"
| "jmul PInf PInf = PInf"
| "jmul PInf NInf = NInf"
| "jmul NInf PInf = NInf"
| "jmul NInf NInf = PInf"
| "jmul NaN y = NaN"
| "jmul x NaN = NaN"

fun jdiv :: "jsnum \<Rightarrow> jsnum \<Rightarrow> jsnum" where
  "jdiv (Fin x) (Fin y) =
     (if y = 0 then (if x = 0 then NaN else if 0 < x then PInf else NInf)
      else Fin (x / y))"
| "jdiv (Fin x) PInf = Fin 0"
| "jdiv (Fin x) NInf = Fin 0"
| "jdiv PInf (Fin y) = (if 0 \<le> y then PInf else NInf)"
| "jdiv NInf (Fin y) = (if 0 \<le> y then NInf else PInf)"
| "jdiv PInf PInf = NaN"
| "jdiv PInf NInf = NaN"
| "jdiv NInf PInf = NaN"
| "jdiv NInf NInf = NaN"
| "jdiv NaN y = NaN"
| "jdiv x NaN = NaN"

text \<open>The comparisons \<^verbatim>\<open><=\<close> and \<^verbatim>\<open><\<close>: false as soon as one side is NaN.\<close>

fun jle :: "jsnum \<Rightarrow> jsnum \<Rightarrow> bool" where
  "jle (Fin x) (Fin y) = (x \<le> y)"
| "jle (Fin x) PInf = True"
| "jle (Fin x) NInf = False"
| "jle PInf (Fin y) = False"
| "jle PInf PInf = True"
| "jle PInf NInf = False"
| "jle NInf (Fin y) = True"
| "jle NInf PInf = True"
| "jle NInf NInf = True"
| "jle NaN y = False"
| "jle x NaN = False"

fun jlt :: "jsnum \<Rightarrow> jsnum \<Rightarrow> bool" where
  "jlt (Fin x) (Fin y) = (x < y)"
| "jlt (Fin x) PInf = True"
| "jlt (Fin x) NInf = False"
| "jlt PInf (Fin y) = False"
| "jlt PInf PInf = False"
| "jlt PInf NInf = False"
| "jlt NInf (Fin y) = True"
| "jlt NInf PInf = True"
| "jlt NInf NInf = False"
| "jlt NaN y = False"
| "jlt x NaN = False"

text \<open>\<^verbatim>\<open>Math.max(x, y)\<close> is NaN when an argument is NaN; \<^verbatim>\<open>Math.ceil\<close> keeps the
  non-finite values.\<close>

fun jmax :: "jsnum \<Rightarrow> jsnum \<Rightarrow> jsnum" where
  "jmax NaN y = NaN"
| "jmax x NaN = NaN"
| "jmax x y = (if jle x y then y else x)"

fun jceil :: "jsnum \<Rightarrow> jsnum" where
  "jceil (Fin x) = Fin (of_int \<lceil>x\<rceil>)"
| "jceil PInf = PInf"
| "jceil NInf = NInf"
| "jceil NaN = NaN"

fun isNaN :: "jsnum \<Rightarrow> bool" where
  "isNaN NaN = True"
| "isNaN x = False"

fun isFinite :: "jsnum \<Rightarrow> bool" where
  "isFinite (Fin x) = True"
| "isFinite x = False"

text \<open>
  \<^verbatim>\<open>v || dflt\<close> on an optional number field: \<^verbatim>\<open>undefined\<close>, \<^verbatim>\<open>0\<close> and \<^verbatim>\<open>NaN\<close> are
  falsy and give the right operand, every other number gives itself.
\<close>

fun orElse :: "jsnum option \<Rightarrow> jsnum \<Rightarrow> jsnum" where
  "orElse None dflt = dflt"
| "orElse (Some v) dflt = (if v = Fin 0 \<or> v = NaN then dflt else v)"

section \<open>Data model\<close>

text \<open>\<^verbatim>\<open>interface DataPoint\<close>: the time and four optional population fields.\<close>

record DataPoint =
  time :: jsnum
  N :: "jsnum option"
  P :: "jsnum option"
  N1 :: "jsnum option"
  N2 :: "jsnum option"

text \<open>The \<^verbatim>\<open>params\<close> state: every field is a number.\<close>

record Params =
  birthRate :: jsnum
  deathRate :: jsnum
  N0 :: jsnum
  K :: jsnum
  a :: jsnum
  b :: jsnum
  c :: jsnum
  d :: jsnum
  P0 :: jsnum
  r1 :: jsnum
  r2 :: jsnum
  K1 :: jsnum
  K2 :: jsnum
  alpha12 :: jsnum
  alpha21 :: jsnum
  N1_0 :: jsnum
  N2_0 :: jsnum
  dt :: jsnum
  timeStep :: jsnum

text \<open>The initial value of \<^verbatim>\<open>params\<close> (the argument of its \<^verbatim>\<open>useState\<close>).\<close>

definition initialParams :: Params where
  "initialParams =
     \<lparr> birthRate = Fin (3 / 10), deathRate = Fin (1 / 10), N0 = Fin 50, K = Fin 1000,
       a = Fin 1, b = Fin (1 / 100), c = Fin (5 / 1000), d = Fin (8 / 10), P0 = Fin 50,
       r1 = Fin (8 / 10), r2 = Fin (7 / 10), K1 = Fin 1000, K2 = Fin 1000,
       alpha12 = Fin (6 / 10), alpha21 = Fin (5 / 10), N1_0 = Fin 50, N2_0 = Fin 50,
       dt = Fin (2 / 100), timeStep = Fin (2 / 10) \<rparr>"

section \<open>Discrete step functions\<close>

text \<open>
  \<^verbatim>\<open>exponentialGrowthDiscrete\<close> and \<^verbatim>\<open>logisticGrowthDiscrete\<close> close over \<^verbatim>\<open>params\<close>;
  here the parameter set is the first argument.
\<close>

definition exponentialGrowthDiscrete :: "Params \<Rightarrow> jsnum \<Rightarrow> jsnum" where
  "exponentialGrowthDiscrete ps n =
     (if jle n (Fin 0) then Fin 0
      else let netGrowthRate = jsub (birthRate ps) (deathRate ps)
           in jmul n (jadd (Fin 1) netGrowthRate))"

definition logisticGrowthDiscrete :: "Params \<Rightarrow> jsnum \<Rightarrow> jsnum" where
  "logisticGrowthDiscrete ps n =
     (if jle n (Fin 0) then Fin 0
      else let netGrowthRate = jsub (birthRate ps) (deathRate ps)
           in jmul n (jadd (Fin 1) (jmul netGrowthRate (jsub (Fin 1) (jdiv n (K ps))))))"

section \<open>Continuous step functions (Euler integration)\<close>

text \<open>
  Both integrators compute \<^verbatim>\<open>steps = Math.ceil(timeIncrement / params.dt)\<close> and
  \<^verbatim>\<open>actualDt = timeIncrement / steps\<close> in the same way. Their \<^verbatim>\<open>console.log\<close> calls
  do not touch the result and are left out.
\<close>

definition steps :: "Params \<Rightarrow> jsnum \<Rightarrow> jsnum" where
  "steps ps timeIncrement = jceil (jdiv timeIncrement (dt ps))"

definition actualDt :: "Params \<Rightarrow> jsnum \<Rightarrow> jsnum" where
  "actualDt ps timeIncrement = jdiv timeIncrement (steps ps timeIncrement)"

text \<open>
  The loop \<^verbatim>\<open>for (let i = 0; i < steps; i++) body\<close> on a pair of populations. The test
  \<^verbatim>\<open>i < steps\<close> compares numbers, so the loop never ends when \<^verbatim>\<open>steps\<close> is
  \<^verbatim>\<open>Infinity\<close>: not returning is the value \<open>None\<close>.
\<close>

partial_function (option) forLoop ::
  "(jsnum \<times> jsnum \<Rightarrow> jsnum \<times> jsnum) \<Rightarrow> jsnum \<Rightarrow> nat \<Rightarrow> jsnum \<times> jsnum
     \<Rightarrow> (jsnum \<times> jsnum) option" where
  "forLoop body stepCount i s =
     (if jlt (Fin (real i)) stepCount then forLoop body stepCount (Suc i) (body s)
      else Some s)"

declare forLoop.simps [code]

text \<open>One pass through the loop body of \<^verbatim>\<open>predatorPreyODE\<close>: both derivatives are read
  from the current pair, then both populations are updated and floored at zero.\<close>

definition predatorPreyEuler :: "Params \<Rightarrow> jsnum \<Rightarrow> jsnum \<times> jsnum \<Rightarrow> jsnum \<times> jsnum" where
  "predatorPreyEuler ps h = (\<lambda>(currentN, currentP).
     let dN_dt = jsub (jmul (a ps) currentN) (jmul (jmul (b ps) currentN) currentP);
         dP_dt = jsub (jmul (jmul (c ps) currentN) currentP) (jmul (d ps) currentP)
     in (jmax (Fin 0) (jadd currentN (jmul dN_dt h)),
         jmax (Fin 0) (jadd currentP (jmul dP_dt h))))"

definition predatorPreyODE ::
  "Params \<Rightarrow> jsnum \<Rightarrow> jsnum \<Rightarrow> jsnum \<Rightarrow> (jsnum \<times> jsnum) option" where
  "predatorPreyODE ps n pr timeIncrement =
     (if jle n (Fin 0) \<or> jle pr (Fin 0) then Some (jmax (Fin 0) n, jmax (Fin 0) pr)
      else forLoop (predatorPreyEuler ps (actualDt ps timeIncrement))
             (steps ps timeIncrement) 0 (n, pr))"

text \<open>One pass through the loop body of \<^verbatim>\<open>competitionODE\<close>.\<close>

definition competitionEuler :: "Params \<Rightarrow> jsnum \<Rightarrow> jsnum \<times> jsnum \<Rightarrow> jsnum \<times> jsnum" where
  "competitionEuler ps h = (\<lambda>(currentN1, currentN2).
     let dN1_dt = jmul (jmul (r1 ps) currentN1)
                    (jsub (Fin 1) (jdiv (jadd currentN1 (jmul (alpha12 ps) currentN2)) (K1 ps)));
         dN2_dt = jmul (jmul (r2 ps) currentN2)
                    (jsub (Fin 1) (jdiv (jadd currentN2 (jmul (alpha21 ps) currentN1)) (K2 ps)))
     in (jmax (Fin 0) (jadd currentN1 (jmul dN1_dt h)),
         jmax (Fin 0) (jadd currentN2 (jmul dN2_dt h))))"

definition competitionODE ::
  "Params \<Rightarrow> jsnum \<Rightarrow> jsnum \<Rightarrow> jsnum \<Rightarrow> (jsnum \<times> jsnum) option" where
  "competitionODE ps n1 n2 timeIncrement =
     (if jle n1 (Fin 0) \<or> jle n2 (Fin 0) then Some (jmax (Fin 0) n1, jmax (Fin 0) n2)
      else forLoop (competitionEuler ps (actualDt ps timeIncrement))
             (steps ps timeIncrement) 0 (n1, n2))"

section \<open>Simulation driver\<close>

text \<open>\<^verbatim>\<open>xs.slice(-k)\<close>: the last \<open>k\<close> elements, all of them when there are fewer.\<close>

definition sliceLast :: "nat \<Rightarrow> 'a list \<Rightarrow> 'a list" where
  "sliceLast k xs = drop (length xs - k) xs"

text \<open>The end of the updater: append the point and keep at most 200 points.\<close>

definition appendPoint :: "DataPoint list \<Rightarrow> DataPoint \<Rightarrow> DataPoint list" where
  "appendPoint prevData newPoint =
     (let newData = prevData @ [newPoint]
      in if length newData > 200 then sliceLast 200 newData else newData)"

text \<open>
  The function passed to \<^verbatim>\<open>setData\<close> by the interval callback: from the previous
  trajectory to the next one. \<open>None\<close> is an integrator that does not return. The
  \<^verbatim>\<open>catch\<close> block is not modelled: nothing in the \<^verbatim>\<open>try\<close> block throws on numbers.
  A model name that is none of the four appends a point that holds the time only.
\<close>

definition nextData :: "string \<Rightarrow> Params \<Rightarrow> DataPoint list \<Rightarrow> DataPoint list option" where
  "nextData model ps prevData =
     (if length prevData = 0 then Some prevData
      else
        let lastPoint = prevData ! (length prevData - 1);
            newTime = jadd (time lastPoint) (timeStep ps);
            newPoint = \<lparr> time = newTime, N = None, P = None, N1 = None, N2 = None \<rparr>
        in
        if model = ''exponential'' then
          (let currentN = orElse (N lastPoint) (N0 ps);
               result = exponentialGrowthDiscrete ps currentN
           in if isNaN result \<or> \<not> isFinite result then Some prevData
              else Some (appendPoint prevData (newPoint\<lparr> N := Some result \<rparr>)))
        else if model = ''logistic'' then
          (let currentN = orElse (N lastPoint) (N0 ps);
               result = logisticGrowthDiscrete ps currentN
           in if isNaN result \<or> \<not> isFinite result then Some prevData
              else Some (appendPoint prevData (newPoint\<lparr> N := Some result \<rparr>)))
        else if model = ''predatorprey'' then
          (let currentN = orElse (N lastPoint) (N0 ps);
               currentP = orElse (P lastPoint) (P0 ps)
           in case predatorPreyODE ps currentN currentP (timeStep ps) of
                None \<Rightarrow> None
              | Some (resultN, resultP) \<Rightarrow>
                  if isNaN resultN \<or> isNaN resultP \<or> \<not> isFinite resultN \<or> \<not> isFinite resultP
                  then Some prevData
                  else Some (appendPoint prevData
                               (newPoint\<lparr> N := Some resultN, P := Some resultP \<rparr>)))
        else if model = ''competition'' then
          (let currentN1 = orElse (N1 lastPoint) (N1_0 ps);
               currentN2 = orElse (N2 lastPoint) (N2_0 ps)
           in case competitionODE ps currentN1 currentN2 (timeStep ps) of
                None \<Rightarrow> None
              | Some (resultN1, resultN2) \<Rightarrow>
                  if isNaN resultN1 \<or> isNaN resultN2 \<or> \<not> isFinite resultN1 \<or> \<not> isFinite resultN2
                  then Some prevData
                  else Some (appendPoint prevData
                               (newPoint\<lparr> N1 := Some resultN1, N2 := Some resultN2 \<rparr>)))
        else Some (appendPoint prevData newPoint))"

text \<open>
  The component state the simulation reads and writes. \<open>simTime\<close> is the \<^verbatim>\<open>time\<close>
  state (the clock shown beside the chart); \<open>data\<close> is the trajectory.
\<close>

record Sim =
  isPlaying :: bool
  simTime :: jsnum
  data :: "DataPoint list"
  selectedModel :: string
  params :: Params

text \<open>
  One firing of the interval callback: \<^verbatim>\<open>setData(updater)\<close>, then
  \<^verbatim>\<open>setTime(prev => prev + params.timeStep)\<close>. The interval exists only while
  \<^verbatim>\<open>isPlaying\<close> holds.
\<close>

definition tick :: "Sim \<Rightarrow> Sim option" where
  "tick s =
     (if isPlaying s then
        (case nextData (selectedModel s) (params s) (data s) of
           None \<Rightarrow> None
         | Some newData \<Rightarrow>
             Some (s\<lparr> data := newData, simTime := jadd (simTime s) (timeStep (params s)) \<rparr>))
      else Some s)"

fun ticks :: "nat \<Rightarrow> Sim \<Rightarrow> Sim option" where
  "ticks 0 s = Some s"
| "ticks (Suc k) s = (case tick s of None \<Rightarrow> None | Some s' \<Rightarrow> ticks k s')"

text \<open>\<^verbatim>\<open>resetSimulation\<close>: stop, clock to zero, and a single seed point for the model.\<close>

definition seedPoint :: "string \<Rightarrow> Params \<Rightarrow> DataPoint" where
  "seedPoint model ps =
     (let initialData = \<lparr> time = Fin 0, N = None, P = None, N1 = None, N2 = None \<rparr>
      in if model = ''exponential'' \<or> model = ''logistic'' then initialData\<lparr> N := Some (N0 ps) \<rparr>
         else if model = ''predatorprey'' then initialData\<lparr> N := Some (N0 ps), P := Some (P0 ps) \<rparr>
         else if model = ''competition'' then
           initialData\<lparr> N1 := Some (N1_0 ps), N2 := Some (N2_0 ps) \<rparr>
         else initialData)"

definition resetSimulation :: "Sim \<Rightarrow> Sim" where
  "resetSimulation s =
     s\<lparr> isPlaying := False, simTime := Fin 0,
        data := [seedPoint (selectedModel s) (params s)] \<rparr>"

section \<open>Auxiliary definitions for the statements\<close>

text \<open>
  The points the updater puts behind a last point: none when the result is rejected, one
  when it is accepted. It is read off \<open>nextData\<close> on the one-point trajectory.
\<close>

definition appendedAfter :: "string \<Rightarrow> Params \<Rightarrow> DataPoint \<Rightarrow> DataPoint list option" where
  "appendedAfter model ps lastPoint = map_option (drop 1) (nextData model ps [lastPoint])"

text \<open>
  The full history after \<open>k\<close> ticks: the starting trajectory followed by every point
  the updater accepted, in order, with nothing evicted. It is what the capped trajectory
  is compared with.
\<close>

fun history :: "nat \<Rightarrow> string \<Rightarrow> Params \<Rightarrow> DataPoint list \<Rightarrow> DataPoint list option" where
  "history 0 model ps h = Some h"
| "history (Suc k) model ps h =
     (if h = [] then history k model ps h
      else case appendedAfter model ps (last h) of
             None \<Rightarrow> None
           | Some new \<Rightarrow> history k model ps (h @ new))"

text \<open>A step function applied \<open>k\<close> times in a row to a pair of populations.\<close>

fun iterateStep ::
  "(jsnum \<Rightarrow> jsnum \<Rightarrow> (jsnum \<times> jsnum) option) \<Rightarrow> nat \<Rightarrow> jsnum \<times> jsnum
     \<Rightarrow> (jsnum \<times> jsnum) option" where
  "iterateStep f 0 x = Some x"
| "iterateStep f (Suc k) x =
     (case f (fst x) (snd x) of None \<Rightarrow> None | Some y \<Rightarrow> iterateStep f k y)"

text \<open>A population that is not negative, or is NaN (which no comparison orders).\<close>

definition nonnegOrNaN :: "jsnum \<Rightarrow> bool" where
  "nonnegOrNaN x = (isNaN x \<or> jle (Fin 0) x)"

section \<open>Double-precision arithmetic\<close>

text \<open>
  The binary exponent of a positive real: the \<open>e\<close> with \<open>2 ^ e \<le> x < 2 ^ (e + 1)\<close>.
\<close>

function expo :: "real \<Rightarrow> int" where
  "expo x = (if x \<le> 0 then 0
             else if x < 1 then expo (2 * x) - 1
             else if 2 \<le> x then expo (x / 2) + 1
             else 0)"
  by pat_completeness auto
termination
proof -
  have half: "nat \<lceil>y / 2\<rceil> < nat \<lceil>y\<rceil>" if "2 \<le> y" for y :: real
  proof -
    have "y / 2 \<le> y - 1" using that by simp
    then have "\<lceil>y / 2\<rceil> \<le> \<lceil>y - 1\<rceil>" by (rule ceiling_mono)
    then have "\<lceil>y / 2\<rceil> \<le> \<lceil>y\<rceil> - 1" by simp
    moreover have "0 < \<lceil>y\<rceil>" using that by (simp add: ceiling_less_iff flip: less_ceiling_iff)
    ultimately show ?thesis by linarith
  qed
  show ?thesis
  proof (relation "measure (\<lambda>x. if x < 1 then nat \<lceil>1 / x\<rceil> + 2 else nat \<lceil>x\<rceil>)")
    show "wf (measure (\<lambda>x::real. if x < 1 then nat \<lceil>1 / x\<rceil> + 2 else nat \<lceil>x\<rceil>))"
      by simp
  next
    fix x :: real
    assume a: "\<not> x \<le> 0" "x < 1"
    show "(2 * x, x) \<in> measure (\<lambda>x. if x < 1 then nat \<lceil>1 / x\<rceil> + 2 else nat \<lceil>x\<rceil>)"
    proof (cases "2 * x < 1")
      case True
      then have "2 \<le> 1 / x" using a by (simp add: field_simps)
      from half[OF this] have "nat \<lceil>1 / (2 * x)\<rceil> < nat \<lceil>1 / x\<rceil>"
        by (simp add: field_simps)
      then show ?thesis using True a by simp
    next
      case False
      have "\<lceil>2 * x\<rceil> \<le> 2" using a by (simp add: ceiling_le_iff)
      moreover have "0 < \<lceil>1 / x\<rceil>" using a by (simp only: zero_less_ceiling) simp
      ultimately have "nat \<lceil>2 * x\<rceil> < nat \<lceil>1 / x\<rceil> + 2" by linarith
      then show ?thesis using False a by simp
    qed
  next
    fix x :: real
    assume a: "\<not> x \<le> 0" "\<not> x < 1" "2 \<le> x"
    show "(x / 2, x) \<in> measure (\<lambda>x. if x < 1 then nat \<lceil>1 / x\<rceil> + 2 else nat \<lceil>x\<rceil>)"
      using half[OF a(3)] a by simp
  qed
qed

declare expo.simps [simp del]

text \<open>Rounding to the nearest integer, a tie to the even one.\<close>

definition roundHalfEven :: "real \<Rightarrow> int" where
  "roundHalfEven q =
     (let f = \<lfloor>q\<rfloor>; r = q - of_int f
      in if r < 1 / 2 then f else if 1 / 2 < r then f + 1 else if even f then f else f + 1)"

text \<open>
  The double nearest to a real (binary64, round to nearest, ties to even): a significand of
  53 bits, so doubles with exponent \<open>e\<close> are spaced \<open>2 ^ (e - 52)\<close> apart; below
  \<open>2 ^ -1022\<close> the spacing stays \<open>2 ^ -1074\<close> (subnormal numbers); a rounded value of
  magnitude \<open>2 ^ 1024\<close> or more overflows to an infinity. A decimal literal of the source
  and a value read by \<^verbatim>\<open>parseFloat\<close> denote the double nearest to the decimal.
\<close>

definition fl :: "real \<Rightarrow> jsnum" where
  "fl x =
     (if x = 0 then Fin 0
      else let e = max (expo \<bar>x\<bar>) (- 1022);
               u = 2 powi (e - 52);
               y = of_int (roundHalfEven (x / u)) * u
           in if 2 powi 1024 \<le> \<bar>y\<bar> then (if 0 < x then PInf else NInf) else Fin y)"

fun rounded :: "jsnum \<Rightarrow> jsnum" where
  "rounded (Fin x) = fl x"
| "rounded PInf = PInf"
| "rounded NInf = NInf"
| "rounded NaN = NaN"

text \<open>The operations \<^verbatim>\<open>+\<close>, \<^verbatim>\<open>-\<close>, \<^verbatim>\<open>*\<close> and \<^verbatim>\<open>/\<close> of doubles: the exact result,
  rounded.\<close>

definition dadd :: "jsnum \<Rightarrow> jsnum \<Rightarrow> jsnum" where
  "dadd x y = rounded (jadd x y)"

definition dsub :: "jsnum \<Rightarrow> jsnum \<Rightarrow> jsnum" where
  "dsub x y = rounded (jsub x y)"

definition dmul :: "jsnum \<Rightarrow> jsnum \<Rightarrow> jsnum" where
  "dmul x y = rounded (jmul x y)"

definition ddiv :: "jsnum \<Rightarrow> jsnum \<Rightarrow> jsnum" where
  "ddiv x y = rounded (jdiv x y)"

text \<open>
  \<^verbatim>\<open>exponentialGrowthDiscrete\<close>, the substep partition and the two integrators with every
  operation in double precision. \<^verbatim>\<open>Math.ceil\<close> and \<^verbatim>\<open>Math.max\<close> of doubles are doubles and
  need no rounding.
\<close>

definition exponentialGrowthDiscrete64 :: "Params \<Rightarrow> jsnum \<Rightarrow> jsnum" where
  "exponentialGrowthDiscrete64 ps n =
     (if jle n (Fin 0) then Fin 0
      else let netGrowthRate = dsub (birthRate ps) (deathRate ps)
           in dmul n (dadd (Fin 1) netGrowthRate))"

definition steps64 :: "Params \<Rightarrow> jsnum \<Rightarrow> jsnum" where
  "steps64 ps timeIncrement = jceil (ddiv timeIncrement (dt ps))"

definition actualDt64 :: "Params \<Rightarrow> jsnum \<Rightarrow> jsnum" where
  "actualDt64 ps timeIncrement = ddiv timeIncrement (steps64 ps timeIncrement)"

definition predatorPreyEuler64 :: "Params \<Rightarrow> jsnum \<Rightarrow> jsnum \<times> jsnum \<Rightarrow> jsnum \<times> jsnum" where
  "predatorPreyEuler64 ps h = (\<lambda>(currentN, currentP).
     let dN_dt = dsub (dmul (a ps) currentN) (dmul (dmul (b ps) currentN) currentP);
         dP_dt = dsub (dmul (dmul (c ps) currentN) currentP) (dmul (d ps) currentP)
     in (jmax (Fin 0) (dadd currentN (dmul dN_dt h)),
         jmax (Fin 0) (dadd currentP (dmul dP_dt h))))"

definition predatorPreyODE64 ::
  "Params \<Rightarrow> jsnum \<Rightarrow> jsnum \<Rightarrow> jsnum \<Rightarrow> (jsnum \<times> jsnum) option" where
  "predatorPreyODE64 ps n pr timeIncrement =
     (if jle n (Fin 0) \<or> jle pr (Fin 0) then Some (jmax (Fin 0) n, jmax (Fin 0) pr)
      else forLoop (predatorPreyEuler64 ps (actualDt64 ps timeIncrement))
             (steps64 ps timeIncrement) 0 (n, pr))"

definition competitionEuler64 :: "Params \<Rightarrow> jsnum \<Rightarrow> jsnum \<times> jsnum \<Rightarrow> jsnum \<times> jsnum" where
  "competitionEuler64 ps h = (\<lambda>(currentN1, currentN2).
     let dN1_dt = dmul (dmul (r1 ps) currentN1)
                    (dsub (Fin 1) (ddiv (dadd currentN1 (dmul (alpha12 ps) currentN2)) (K1 ps)));
         dN2_dt = dmul (dmul (r2 ps) currentN2)
                    (dsub (Fin 1) (ddiv (dadd currentN2 (dmul (alpha21 ps) currentN1)) (K2 ps)))
     in (jmax (Fin 0) (dadd currentN1 (dmul dN1_dt h)),
         jmax (Fin 0) (dadd currentN2 (dmul dN2_dt h))))"

definition competitionODE64 ::
  "Params \<Rightarrow> jsnum \<Rightarrow> jsnum \<Rightarrow> jsnum \<Rightarrow> (jsnum \<times> jsnum) option" where
  "competitionODE64 ps n1 n2 timeIncrement =
     (if jle n1 (Fin 0) \<or> jle n2 (Fin 0) then Some (jmax (Fin 0) n1, jmax (Fin 0) n2)
      else forLoop (competitionEuler64 ps (actualDt64 ps timeIncrement))
             (steps64 ps timeIncrement) 0 (n1, n2))"

section \<open>The integration loop\<close>

lemma loop_test: "jlt (Fin (real i)) (Fin m) \<longleftrightarrow> i < nat \<lceil>m\<rceil>"
proof -
  have "real i < m \<longleftrightarrow> int i < \<lceil>m\<rceil>" by (simp add: less_ceiling_iff)
  also have "\<dots> \<longleftrightarrow> i < nat \<lceil>m\<rceil>" by (simp add: zless_nat_eq_int_zless)
  finally show ?thesis by (simp only: jlt.simps)
qed

text \<open>With a finite bound the loop returns, after \<open>\<lceil>m\<rceil> - i\<close> passes through the body.\<close>

lemma forLoop_Fin: "forLoop body (Fin m) i s = Some ((body ^^ (nat \<lceil>m\<rceil> - i)) s)"
proof (induction "nat \<lceil>m\<rceil> - i" arbitrary: i s)
  case 0
  then have "\<not> i < nat \<lceil>m\<rceil>" by linarith
  then have nlt: "\<not> jlt (Fin (real i)) (Fin m)" using loop_test[of i m] by blast
  have "forLoop body (Fin m) i s = Some s"
    by (subst forLoop.simps) (simp only: nlt if_False)
  then show ?case by (simp only: 0(1)[symmetric] funpow_0)
next
  case (Suc k)
  then have "i < nat \<lceil>m\<rceil>" by linarith
  then have lt: "jlt (Fin (real i)) (Fin m)" using loop_test[of i m] by blast
  have k: "k = nat \<lceil>m\<rceil> - Suc i" using Suc.hyps(2) by linarith
  have "forLoop body (Fin m) (Suc i) (body s) = Some ((body ^^ k) (body s))"
    using Suc.hyps(1)[OF k] by (simp only: k)
  moreover have "forLoop body (Fin m) i s = forLoop body (Fin m) (Suc i) (body s)"
    by (subst forLoop.simps) (simp only: lt if_True)
  ultimately show ?case by (simp only: Suc.hyps(2)[symmetric] funpow_Suc_right o_apply)
qed

lemma forLoop_NaN: "forLoop body NaN i s = Some s"
  by (subst forLoop.simps) simp

lemma forLoop_NInf: "forLoop body NInf i s = Some s"
  by (subst forLoop.simps) simp

text \<open>With the bound \<^verbatim>\<open>Infinity\<close> (a zero \<^verbatim>\<open>dt\<close>) the loop does not return.\<close>

lemma forLoop_Some_not_PInf: "forLoop body stepCount i s = Some y \<Longrightarrow> stepCount \<noteq> PInf"
proof (rule forLoop.raw_induct[where P = "\<lambda>body stepCount i s y. stepCount \<noteq> PInf"])
  fix loop :: "(jsnum \<times> jsnum \<Rightarrow> jsnum \<times> jsnum) \<Rightarrow> jsnum \<Rightarrow> nat \<Rightarrow> jsnum \<times> jsnum
                 \<Rightarrow> (jsnum \<times> jsnum) option"
    and f k j u v
  assume ih: "\<And>f' k' j' u' v'. loop f' k' j' u' = Some v' \<Longrightarrow> k' \<noteq> PInf"
    and eq: "(if jlt (Fin (real j)) k then loop f k (Suc j) (f u) else Some u) = Some v"
  show "k \<noteq> PInf"
  proof
    assume "k = PInf"
    with eq have "loop f PInf (Suc j) (f u) = Some v" by simp
    from ih[OF this] show False by simp
  qed
qed

lemma forLoop_PInf: "forLoop body PInf i s = None"
  using forLoop_Some_not_PInf[of body PInf i s] by (cases "forLoop body PInf i s") auto

lemma forLoop_returns: "stepCount \<noteq> PInf \<Longrightarrow> \<exists>k. forLoop body stepCount 0 s = Some ((body ^^ k) s)"
proof (cases stepCount)
  case (Fin m)
  then show ?thesis using forLoop_Fin[of body m 0 s] by blast
next
  case PInf
  assume "stepCount \<noteq> PInf"
  with PInf show ?thesis by simp
next
  case NInf
  have "forLoop body NInf 0 s = Some ((body ^^ 0) s)" by (simp add: forLoop_NInf)
  with NInf show ?thesis by blast
next
  case NaN
  have "forLoop body NaN 0 s = Some ((body ^^ 0) s)" by (simp add: forLoop_NaN)
  with NaN show ?thesis by blast
qed

section \<open>Discrete step functions: properties\<close>

text \<open>
  C7. For an input with \<^verbatim>\<open>n <= 0\<close> and any parameter set, the exponential and the logistic
  step both return 0.
\<close>

theorem C7_discrete_extinction:
  assumes "jle n (Fin 0)"
  shows "exponentialGrowthDiscrete ps n = Fin 0 \<and> logisticGrowthDiscrete ps n = Fin 0"
  using assms by (simp add: exponentialGrowthDiscrete_def logisticGrowthDiscrete_def)

theorem C7_discrete_extinction_witness:
  "jle (Fin (- 3)) (Fin 0)
   \<and> exponentialGrowthDiscrete initialParams (Fin (- 3)) = Fin 0
   \<and> logisticGrowthDiscrete initialParams (Fin (- 3)) = Fin 0"
proof -
  have h: "jle (Fin (- 3)) (Fin 0)" by simp
  show ?thesis using h C7_discrete_extinction[OF h, of initialParams] by simp
qed

text \<open>
  C8. For a finite carrying capacity \<open>K > 0\<close> and finite birth and death rates (the
  parameters are real-valued scalars), the logistic step at \<open>N = K\<close> returns \<open>N\<close>; with
  the initial parameters \<open>N = K = 1000\<close> gives 1000.
\<close>

theorem C8_logistic_equilibrium:
  assumes "0 < k" and "K ps = Fin k" and "birthRate ps = Fin y" and "deathRate ps = Fin z"
  shows "logisticGrowthDiscrete ps (Fin k) = Fin k"
  using assms by (simp add: logisticGrowthDiscrete_def jsub_def)

theorem C8_logistic_equilibrium_witness:
  "(0::real) < 1000 \<and> K initialParams = Fin 1000
   \<and> logisticGrowthDiscrete initialParams (Fin 1000) = Fin 1000"
proof -
  have k: "K initialParams = Fin 1000" and b: "birthRate initialParams = Fin (3 / 10)"
    and d: "deathRate initialParams = Fin (1 / 10)"
    by (simp_all add: initialParams_def)
  have p: "(0::real) < 1000" by simp
  show ?thesis using p k C8_logistic_equilibrium[OF p k b d] by simp
qed

section \<open>Continuous step functions: properties\<close>

lemma jmax0_idem: "jmax (Fin 0) (jmax (Fin 0) x) = jmax (Fin 0) x"
  by (cases x) auto

lemma jle0_jmax0: "jle x (Fin 0) \<Longrightarrow> jmax (Fin 0) x = Fin 0"
  by (cases x) auto

lemma extinct_after_floor:
  assumes "jle n (Fin 0) \<or> jle pr (Fin 0)"
  shows "jle (jmax (Fin 0) n) (Fin 0) \<or> jle (jmax (Fin 0) pr) (Fin 0)"
  using assms by (auto simp: jle0_jmax0)

lemma predatorPreyODE_extinct:
  assumes "jle n (Fin 0) \<or> jle pr (Fin 0)"
  shows "predatorPreyODE ps n pr t = Some (jmax (Fin 0) n, jmax (Fin 0) pr)"
  using assms by (simp add: predatorPreyODE_def)

lemma competitionODE_extinct:
  assumes "jle n1 (Fin 0) \<or> jle n2 (Fin 0)"
  shows "competitionODE ps n1 n2 t = Some (jmax (Fin 0) n1, jmax (Fin 0) n2)"
  using assms by (simp add: competitionODE_def)

lemma iterateStep_fixed:
  assumes "f (fst x) (snd x) = Some x"
  shows "iterateStep f k x = Some x"
  using assms by (induction k) simp_all

text \<open>
  C4. When either input population is \<^verbatim>\<open><= 0\<close>, the predator-prey and the competition
  step function return both inputs floored at zero, without integrating; the returned pair
  is a fixed point of both functions under every parameter set and time increment, so any
  number of further steps leaves it as it is.
\<close>

theorem C4_extinction_fixed_point:
  assumes "jle x (Fin 0) \<or> jle y (Fin 0)"
  shows "predatorPreyODE ps x y t = Some (jmax (Fin 0) x, jmax (Fin 0) y)
         \<and> competitionODE ps x y t = Some (jmax (Fin 0) x, jmax (Fin 0) y)
         \<and> (\<forall>ps' t' k. iterateStep (\<lambda>u v. predatorPreyODE ps' u v t') k
                           (jmax (Fin 0) x, jmax (Fin 0) y)
                         = Some (jmax (Fin 0) x, jmax (Fin 0) y))
         \<and> (\<forall>ps' t' k. iterateStep (\<lambda>u v. competitionODE ps' u v t') k
                           (jmax (Fin 0) x, jmax (Fin 0) y)
                         = Some (jmax (Fin 0) x, jmax (Fin 0) y))"
proof -
  note fl = extinct_after_floor[OF assms]
  have pp: "predatorPreyODE ps' (jmax (Fin 0) x) (jmax (Fin 0) y) t'
              = Some (jmax (Fin 0) x, jmax (Fin 0) y)" for ps' t'
    using predatorPreyODE_extinct[OF fl] by (simp add: jmax0_idem)
  have cp: "competitionODE ps' (jmax (Fin 0) x) (jmax (Fin 0) y) t'
              = Some (jmax (Fin 0) x, jmax (Fin 0) y)" for ps' t'
    using competitionODE_extinct[OF fl] by (simp add: jmax0_idem)
  have "iterateStep (\<lambda>u v. predatorPreyODE ps' u v t') k (jmax (Fin 0) x, jmax (Fin 0) y)
          = Some (jmax (Fin 0) x, jmax (Fin 0) y)" for ps' t' k
    by (rule iterateStep_fixed) (simp add: pp)
  moreover
  have "iterateStep (\<lambda>u v. competitionODE ps' u v t') k (jmax (Fin 0) x, jmax (Fin 0) y)
          = Some (jmax (Fin 0) x, jmax (Fin 0) y)" for ps' t' k
    by (rule iterateStep_fixed) (simp add: cp)
  ultimately show ?thesis
    using predatorPreyODE_extinct[OF assms] competitionODE_extinct[OF assms] by blast
qed

theorem C4_extinction_fixed_point_witness:
  "(jle (Fin (- 2)) (Fin 0) \<or> jle (Fin 30) (Fin 0))
   \<and> predatorPreyODE initialParams (Fin (- 2)) (Fin 30) (Fin (1 / 5)) = Some (Fin 0, Fin 30)
   \<and> competitionODE initialParams (Fin (- 2)) (Fin 30) (Fin (1 / 5)) = Some (Fin 0, Fin 30)
   \<and> iterateStep (\<lambda>u v. predatorPreyODE initialParams u v (Fin (1 / 5))) 7 (Fin 0, Fin 30)
       = Some (Fin 0, Fin 30)
   \<and> iterateStep (\<lambda>u v. competitionODE initialParams u v (Fin (1 / 5))) 7 (Fin 0, Fin 30)
       = Some (Fin 0, Fin 30)"
proof -
  have h: "jle (Fin (- 2)) (Fin 0) \<or> jle (Fin 30) (Fin 0)" by simp
  have m: "jmax (Fin 0) (Fin (- 2)) = Fin 0" "jmax (Fin 0) (Fin 30) = Fin 30" by simp_all
  show ?thesis
    using h C4_extinction_fixed_point[OF h, of initialParams "Fin (1 / 5)"]
    unfolding m by blast
qed

section \<open>Simulation driver: properties\<close>

lemma sliceLast_id: "length xs \<le> k \<Longrightarrow> sliceLast k xs = xs"
  by (simp add: sliceLast_def)

lemma length_sliceLast: "length (sliceLast k xs) = min k (length xs)"
  by (simp add: sliceLast_def)

lemma sliceLast_Nil_iff: "0 < k \<Longrightarrow> sliceLast k xs = [] \<longleftrightarrow> xs = []"
  by (cases xs) (auto simp: sliceLast_def)

lemma last_sliceLast: "0 < k \<Longrightarrow> xs \<noteq> [] \<Longrightarrow> last (sliceLast k xs) = last xs"
  by (simp add: sliceLast_def)

lemma sliceLast_append: "sliceLast k (sliceLast k xs @ ys) = sliceLast k (xs @ ys)"
proof (cases "length xs \<le> k")
  case True
  then show ?thesis by (simp add: sliceLast_id)
next
  case False
  then have "length xs + length ys - k = (length xs - k) + length ys" by simp
  then show ?thesis using False by (simp add: sliceLast_def add.commute)
qed

lemma appendPoint_eq: "appendPoint prevData p = sliceLast 200 (prevData @ [p])"
  by (simp add: appendPoint_def Let_def sliceLast_def)

text \<open>The updater reads the previous trajectory through its last point only.\<close>

lemma nextData_via_appended:
  assumes "prev \<noteq> []" "length prev \<le> 200"
  shows "nextData model ps prev =
           map_option (\<lambda>new. sliceLast 200 (prev @ new)) (appendedAfter model ps (last prev))"
proof -
  have l: "prev ! (length prev - Suc 0) = last prev" using assms(1) by (simp add: last_conv_nth)
  note e = assms(1)
  have r: "sliceLast 200 prev = prev" using assms(2) by (rule sliceLast_id)
  have s: "sliceLast 200 [x, q] = [x, q]" for x q :: DataPoint by (simp add: sliceLast_def)
  consider (ex) "model = ''exponential''" | (lo) "model = ''logistic''"
    | (pp) "model = ''predatorprey''" | (co) "model = ''competition''"
    | (other) "model \<noteq> ''exponential''" "model \<noteq> ''logistic''"
        "model \<noteq> ''predatorprey''" "model \<noteq> ''competition''"
    by blast
  then show ?thesis
  proof cases
    case ex
    show ?thesis
      unfolding appendedAfter_def nextData_def ex
      by (simp add: l e r s Let_def appendPoint_eq)
  next
    case lo
    show ?thesis
      unfolding appendedAfter_def nextData_def lo
      by (simp add: l e r s Let_def appendPoint_eq)
  next
    case pp
    show ?thesis
      unfolding appendedAfter_def nextData_def pp
      by (simp add: l e r s Let_def appendPoint_eq split: option.splits prod.splits)
  next
    case co
    show ?thesis
      unfolding appendedAfter_def nextData_def co
      by (simp add: l e r s Let_def appendPoint_eq split: option.splits prod.splits)
  next
    case other
    show ?thesis
      unfolding appendedAfter_def nextData_def
      by (simp add: other l e r s Let_def appendPoint_eq)
  qed
qed

lemma appendPoint_single: "appendPoint [x] q = [x, q]"
  by (simp add: appendPoint_def sliceLast_def)

lemma nextData_single:
  "nextData model ps [x] = None \<or> nextData model ps [x] = Some [x]
   \<or> (\<exists>q. nextData model ps [x] = Some [x, q])"
  unfolding nextData_def
  by (simp add: Let_def appendPoint_single split: option.splits prod.splits)

lemma appendedAfter_length: "appendedAfter model ps x = Some new \<Longrightarrow> length new \<le> 1"
  using nextData_single[of model ps x] by (auto simp: appendedAfter_def)

lemma nextData_Nil: "nextData model ps [] = Some []"
  by (simp add: nextData_def)

lemma tick_playing:
  assumes "isPlaying s"
  shows "tick s = map_option
           (\<lambda>newData. s\<lparr> data := newData, simTime := jadd (simTime s) (timeStep (params s)) \<rparr>)
           (nextData (selectedModel s) (params s) (data s))"
  using assms by (simp add: tick_def split: option.splits)

text \<open>Whenever a tick of the running simulation returns, the clock has moved on by
  \<^verbatim>\<open>timeStep\<close>, whatever the updater did with the trajectory.\<close>

lemma tick_advances_clock:
  assumes "isPlaying s" "tick s = Some s'"
  shows "simTime s' = jadd (simTime s) (timeStep (params s))"
  using assms by (auto simp: tick_playing)

lemma tick_length:
  assumes "length (data s) \<le> 200" "tick s = Some s'"
  shows "length (data s') \<le> 200"
proof (cases "isPlaying s")
  case False
  then show ?thesis using assms by (simp add: tick_def)
next
  case True
  then obtain nd where nd: "nextData (selectedModel s) (params s) (data s) = Some nd"
    and s': "data s' = nd"
    using assms(2) by (auto simp: tick_playing)
  show ?thesis
  proof (cases "data s = []")
    case True
    then show ?thesis using nd s' by (simp add: nextData_Nil)
  next
    case False
    from nd nextData_via_appended[OF False assms(1), of "selectedModel s" "params s"]
    obtain new where "nd = sliceLast 200 (data s @ new)" by auto
    then show ?thesis using s' by (simp add: length_sliceLast)
  qed
qed

text \<open>The trajectory after \<open>k\<close> ticks is the last 200 points of the full history.\<close>

lemma ticks_history:
  assumes "isPlaying s" "data s = sliceLast 200 h"
  shows "map_option data (ticks k s) =
           map_option (sliceLast 200) (history k (selectedModel s) (params s) h)"
  using assms
proof (induction k arbitrary: s h)
  case 0
  then show ?case by simp
next
  case (Suc k)
  let ?m = "selectedModel s" and ?ps = "params s"
  show ?case
  proof (cases "h = []")
    case True
    then have e: "data s = []" using Suc.prems(2) by (simp add: sliceLast_def)
    define s' where "s' = s\<lparr> data := [], simTime := jadd (simTime s) (timeStep (params s)) \<rparr>"
    have t: "tick s = Some s'"
      using Suc.prems(1) e by (simp add: tick_playing nextData_Nil s'_def)
    have "map_option data (ticks k s')
            = map_option (sliceLast 200) (history k (selectedModel s') (params s') h)"
      by (rule Suc.IH) (simp_all add: s'_def Suc.prems(1) True sliceLast_def)
    then show ?thesis using t True by (simp add: s'_def)
  next
    case False
    then have ne: "data s \<noteq> []" using Suc.prems(2) by (simp add: sliceLast_Nil_iff)
    have len: "length (data s) \<le> 200" using Suc.prems(2) by (simp add: length_sliceLast)
    have lst: "last (data s) = last h" using Suc.prems(2) False by (simp add: last_sliceLast)
    note nd = nextData_via_appended[OF ne len, of ?m ?ps, unfolded lst]
    show ?thesis
    proof (cases "appendedAfter ?m ?ps (last h)")
      case None
      then show ?thesis using False Suc.prems(1) by (simp add: tick_playing nd)
    next
      case (Some new)
      define s' where
        "s' = s\<lparr> data := sliceLast 200 (data s @ new),
                  simTime := jadd (simTime s) (timeStep (params s)) \<rparr>"
      have t: "tick s = Some s'"
        using Suc.prems(1) Some by (simp add: tick_playing nd s'_def)
      have "map_option data (ticks k s')
              = map_option (sliceLast 200) (history k (selectedModel s') (params s') (h @ new))"
        by (rule Suc.IH) (simp_all add: s'_def Suc.prems sliceLast_append)
      then show ?thesis using t False Some by (simp add: s'_def)
    qed
  qed
qed

text \<open>The history keeps the starting trajectory as its prefix and grows by at most one
  point a tick.\<close>

lemma history_extends:
  assumes "history k model ps h = Some h'"
  shows "length h \<le> length h' \<and> length h' \<le> length h + k \<and> take (length h) h' = h"
  using assms
proof (induction k arbitrary: h)
  case 0
  then show ?case by simp
next
  case (Suc k)
  show ?case
  proof (cases "h = []")
    case True
    then show ?thesis using Suc.prems Suc.IH[of h] by simp
  next
    case False
    then obtain new where a: "appendedAfter model ps (last h) = Some new"
      and r: "history k model ps (h @ new) = Some h'"
      using Suc.prems by (auto split: option.splits)
    have n1: "length new \<le> 1" using a by (rule appendedAfter_length)
    from Suc.IH[OF r] have ih: "length (h @ new) \<le> length h'"
      "length h' \<le> length (h @ new) + k" "take (length (h @ new)) h' = h @ new" by auto
    have "take (length h) h' = take (length h) (take (length (h @ new)) h')"
      by (simp add: min_def)
    also have "\<dots> = take (length h) (h @ new)" by (simp only: ih(3))
    also have "\<dots> = h" by simp
    finally have "take (length h) h' = h" .
    moreover have "length h \<le> length h'" using ih(1) by simp
    moreover have "length h' \<le> length h + Suc k" using ih(2) n1 by simp
    ultimately show ?thesis by simp
  qed
qed

text \<open>The integrators return unless the substep count is \<^verbatim>\<open>Infinity\<close>, and so does a tick.\<close>

lemma predatorPreyODE_returns:
  "steps ps t \<noteq> PInf \<Longrightarrow> predatorPreyODE ps x y t \<noteq> None"
  using forLoop_returns[of "steps ps t" "predatorPreyEuler ps (actualDt ps t)" "(x, y)"]
  by (auto simp: predatorPreyODE_def)

lemma competitionODE_returns:
  "steps ps t \<noteq> PInf \<Longrightarrow> competitionODE ps x y t \<noteq> None"
  using forLoop_returns[of "steps ps t" "competitionEuler ps (actualDt ps t)" "(x, y)"]
  by (auto simp: competitionODE_def)

lemma nextData_returns:
  assumes "steps ps (timeStep ps) \<noteq> PInf"
  shows "nextData model ps prev \<noteq> None"
proof -
  have pp: "(predatorPreyODE ps x y (timeStep ps) = None) = False" for x y
    using predatorPreyODE_returns[OF assms] by simp
  have cp: "(competitionODE ps x y (timeStep ps) = None) = False" for x y
    using competitionODE_returns[OF assms] by simp
  show ?thesis
    unfolding nextData_def
    by (simp add: Let_def pp cp split: option.splits prod.splits)
qed

lemma tick_returns:
  assumes "steps (params s) (timeStep (params s)) \<noteq> PInf"
  shows "\<exists>s'. tick s = Some s' \<and> params s' = params s"
proof -
  from nextData_returns[OF assms, of "selectedModel s" "data s"]
  obtain nd where "nextData (selectedModel s) (params s) (data s) = Some nd" by blast
  then show ?thesis by (simp add: tick_def)
qed

lemma ticks_returns:
  assumes "steps (params s) (timeStep (params s)) \<noteq> PInf"
  shows "ticks k s \<noteq> None"
  using assms
proof (induction k arbitrary: s)
  case 0
  then show ?case by simp
next
  case (Suc k)
  from tick_returns[OF Suc.prems] obtain s' where t: "tick s = Some s'"
    and p: "params s' = params s" by blast
  from Suc.IH[of s'] Suc.prems p have "ticks k s' \<noteq> None" by simp
  then show ?case using t by simp
qed

text \<open>
  C10. A tick of the running simulation on an empty trajectory leaves it empty: the
  updater returns the empty trajectory it was given and no point is made up.
\<close>

theorem C10_empty_trajectory_stays_empty:
  assumes "isPlaying s" and "data s = []"
  shows "nextData (selectedModel s) (params s) (data s) = Some []
         \<and> (\<exists>s'. tick s = Some s' \<and> data s' = [])"
  using assms by (simp add: tick_playing nextData_Nil)

theorem C10_empty_trajectory_stays_empty_witness:
  "isPlaying \<lparr> isPlaying = True, simTime = Fin 0, data = [],
               selectedModel = ''exponential'', params = initialParams \<rparr>
   \<and> (\<exists>s'. tick \<lparr> isPlaying = True, simTime = Fin 0, data = [],
                     selectedModel = ''exponential'', params = initialParams \<rparr> = Some s'
            \<and> data s' = [])"
proof -
  let ?s = "\<lparr> isPlaying = True, simTime = Fin 0, data = [],
              selectedModel = ''exponential'', params = initialParams \<rparr>"
  have p: "isPlaying ?s" and e: "data ?s = []" by simp_all
  from C10_empty_trajectory_stays_empty[OF p e] show ?thesis using p by blast
qed

text \<open>
  C5. A tick never takes a trajectory of at most 200 points (the empty initial one, a
  reset one, or one built by earlier ticks) above 200 points. Over \<open>k\<close> ticks of the
  running simulation the trajectory is the last 200 points of the full history, the
  starting trajectory followed by the accepted points in their order; so once the history
  is longer than 200 the trajectory holds exactly its 200 most recent points. The run
  returns whenever the substep count is not \<^verbatim>\<open>Infinity\<close>.
\<close>

theorem C5_trajectory_cap:
  assumes "isPlaying s" and "length (data s) \<le> 200"
  shows "(\<forall>u u'. length (data u) \<le> 200 \<and> tick u = Some u' \<longrightarrow> length (data u') \<le> 200)
         \<and> (steps (params s) (timeStep (params s)) \<noteq> PInf \<longrightarrow> ticks k s \<noteq> None)
         \<and> (\<forall>s'. ticks k s = Some s' \<longrightarrow>
               length (data s') \<le> 200
               \<and> (\<exists>h. history k (selectedModel s) (params s) (data s) = Some h
                     \<and> take (length (data s)) h = data s
                     \<and> data s' = sliceLast 200 h
                     \<and> (200 < length h \<longrightarrow>
                          length (data s') = 200 \<and> data s' = drop (length h - 200) h)))"
proof -
  have one: "\<forall>u u'. length (data u) \<le> 200 \<and> tick u = Some u' \<longrightarrow> length (data u') \<le> 200"
    using tick_length by blast
  have ret: "steps (params s) (timeStep (params s)) \<noteq> PInf \<longrightarrow> ticks k s \<noteq> None"
    using ticks_returns by blast
  have d: "data s = sliceLast 200 (data s)" using assms(2) by (simp add: sliceLast_id)
  note th = ticks_history[OF assms(1) d, of k]
  have run: "length (data s') \<le> 200
             \<and> (\<exists>h. history k (selectedModel s) (params s) (data s) = Some h
                   \<and> take (length (data s)) h = data s
                   \<and> data s' = sliceLast 200 h
                   \<and> (200 < length h \<longrightarrow>
                        length (data s') = 200 \<and> data s' = drop (length h - 200) h))"
    if t: "ticks k s = Some s'" for s'
  proof -
    from th t obtain h where h: "history k (selectedModel s) (params s) (data s) = Some h"
      and ds: "data s' = sliceLast 200 h"
      by (cases "history k (selectedModel s) (params s) (data s)") auto
    from history_extends[OF h] have pre: "take (length (data s)) h = data s" by blast
    have len: "length (data s') \<le> 200" using ds by (simp add: length_sliceLast)
    have full: "length (data s') = 200 \<and> data s' = drop (length h - 200) h"
      if "200 < length h"
      using that ds by (simp add: length_sliceLast sliceLast_def)
    show ?thesis using h pre ds len full by blast
  qed
  show ?thesis using one ret run by blast
qed

theorem C5_trajectory_cap_witness:
  "isPlaying \<lparr> isPlaying = True, simTime = Fin 0,
               data = replicate 200 (seedPoint ''exponential'' initialParams),
               selectedModel = ''exponential'', params = initialParams \<rparr>
   \<and> length (replicate 200 (seedPoint ''exponential'' initialParams)) \<le> 200
   \<and> (\<exists>s'. ticks 1 \<lparr> isPlaying = True, simTime = Fin 0,
                        data = replicate 200 (seedPoint ''exponential'' initialParams),
                        selectedModel = ''exponential'', params = initialParams \<rparr> = Some s'
            \<and> length (data s') = 200
            \<and> data s' = replicate 199 (seedPoint ''exponential'' initialParams)
                          @ [\<lparr> time = Fin (1 / 5), N = Some (Fin 60), P = None,
                                N1 = None, N2 = None \<rparr>])"
proof -
  let ?p = "seedPoint ''exponential'' initialParams"
  let ?q = "\<lparr> time = Fin (1 / 5), N = Some (Fin 60), P = None, N1 = None, N2 = None \<rparr>"
  let ?s = "\<lparr> isPlaying = True, simTime = Fin 0, data = replicate 200 ?p,
              selectedModel = ''exponential'', params = initialParams \<rparr>"
  have p: "isPlaying ?s" and l: "length (data ?s) \<le> 200" by simp_all
  have sp: "?p = \<lparr> time = Fin 0, N = Some (Fin 50), P = None, N1 = None, N2 = None \<rparr>"
    by (simp add: seedPoint_def initialParams_def)
  have ex: "exponentialGrowthDiscrete initialParams (Fin 50) = Fin 60"
    by (simp add: exponentialGrowthDiscrete_def initialParams_def jsub_def)
  have n0: "N0 initialParams = Fin 50" and ts: "timeStep initialParams = Fin (1 / 5)"
    by (simp_all add: initialParams_def)
  have nd: "nextData ''exponential'' initialParams (replicate 200 ?p) = Some (replicate 199 ?p @ [?q])"
    unfolding sp
    by (simp add: nextData_def Let_def ex n0 ts appendPoint_def sliceLast_def)
  have t: "ticks 1 ?s = Some (?s\<lparr> data := replicate 199 ?p @ [?q], simTime := Fin (1 / 5) \<rparr>)"
    by (simp add: tick_def nd ts)
  from C5_trajectory_cap[OF p l, of 1] t
  have "length (data (?s\<lparr> data := replicate 199 ?p @ [?q], simTime := Fin (1 / 5) \<rparr>)) \<le> 200"
    by blast
  then show ?thesis using p t by simp
qed

section \<open>Where the driver departs from the specification\<close>

text \<open>The integrators floor every update at zero: what they return is never negative.\<close>

lemma nonnegOrNaN_jmax0: "nonnegOrNaN (jmax (Fin 0) x)"
  by (cases x) (auto simp: nonnegOrNaN_def)

lemma nonnegOrNaN_not_le0: "\<not> jle x (Fin 0) \<Longrightarrow> nonnegOrNaN x"
  by (cases x) (auto simp: nonnegOrNaN_def)

lemma funpow_floor:
  assumes "\<And>u. nonnegOrNaN (fst (body u)) \<and> nonnegOrNaN (snd (body u))"
    and "nonnegOrNaN (fst u) \<and> nonnegOrNaN (snd u)"
  shows "nonnegOrNaN (fst ((body ^^ k) u)) \<and> nonnegOrNaN (snd ((body ^^ k) u))"
  using assms by (cases k) simp_all

lemma predatorPreyODE_nonneg:
  assumes "predatorPreyODE ps x y t = Some (x', y')"
  shows "nonnegOrNaN x' \<and> nonnegOrNaN y'"
proof (cases "jle x (Fin 0) \<or> jle y (Fin 0)")
  case True
  then show ?thesis using assms by (auto simp: predatorPreyODE_def nonnegOrNaN_jmax0)
next
  case False
  let ?body = "predatorPreyEuler ps (actualDt ps t)"
  have st: "steps ps t \<noteq> PInf"
    using assms False forLoop_PInf by (auto simp: predatorPreyODE_def)
  from forLoop_returns[OF st, of ?body "(x, y)"] assms False
  obtain k where k: "(x', y') = (?body ^^ k) (x, y)" by (auto simp: predatorPreyODE_def)
  have "nonnegOrNaN (fst (?body u)) \<and> nonnegOrNaN (snd (?body u))" for u
    by (cases u) (simp add: predatorPreyEuler_def Let_def nonnegOrNaN_jmax0)
  from funpow_floor[of ?body "(x, y)" k, OF this] False
  have "nonnegOrNaN (fst ((?body ^^ k) (x, y))) \<and> nonnegOrNaN (snd ((?body ^^ k) (x, y)))"
    by (simp add: nonnegOrNaN_not_le0)
  then show ?thesis by (simp add: k[symmetric])
qed

lemma competitionODE_nonneg:
  assumes "competitionODE ps x y t = Some (x', y')"
  shows "nonnegOrNaN x' \<and> nonnegOrNaN y'"
proof (cases "jle x (Fin 0) \<or> jle y (Fin 0)")
  case True
  then show ?thesis using assms by (auto simp: competitionODE_def nonnegOrNaN_jmax0)
next
  case False
  let ?body = "competitionEuler ps (actualDt ps t)"
  have st: "steps ps t \<noteq> PInf"
    using assms False forLoop_PInf by (auto simp: competitionODE_def)
  from forLoop_returns[OF st, of ?body "(x, y)"] assms False
  obtain k where k: "(x', y') = (?body ^^ k) (x, y)" by (auto simp: competitionODE_def)
  have "nonnegOrNaN (fst (?body u)) \<and> nonnegOrNaN (snd (?body u))" for u
    by (cases u) (simp add: competitionEuler_def Let_def nonnegOrNaN_jmax0)
  from funpow_floor[of ?body "(x, y)" k, OF this] False
  have "nonnegOrNaN (fst ((?body ^^ k) (x, y))) \<and> nonnegOrNaN (snd ((?body ^^ k) (x, y)))"
    by (simp add: nonnegOrNaN_not_le0)
  then show ?thesis by (simp add: k[symmetric])
qed

text \<open>An accepted point carries the time of the last point plus \<^verbatim>\<open>timeStep\<close>, so a tick
  that appends a point keeps the clock equal to the time of the last point.\<close>

lemma appendedAfter_time:
  assumes "appendedAfter model ps x = Some [q]"
  shows "time q = jadd (time x) (timeStep ps)"
proof -
  consider (ex) "model = ''exponential''" | (lo) "model = ''logistic''"
    | (pp) "model = ''predatorprey''" | (co) "model = ''competition''"
    | (other) "model \<noteq> ''exponential''" "model \<noteq> ''logistic''"
        "model \<noteq> ''predatorprey''" "model \<noteq> ''competition''"
    by blast
  then show ?thesis
  proof cases
    case ex
    show ?thesis using assms unfolding appendedAfter_def nextData_def ex
      by (auto simp: Let_def appendPoint_single split: if_splits)
  next
    case lo
    show ?thesis using assms unfolding appendedAfter_def nextData_def lo
      by (auto simp: Let_def appendPoint_single split: if_splits)
  next
    case pp
    show ?thesis using assms unfolding appendedAfter_def nextData_def pp
      by (auto simp: Let_def appendPoint_single split: if_splits option.splits prod.splits)
  next
    case co
    show ?thesis using assms unfolding appendedAfter_def nextData_def co
      by (auto simp: Let_def appendPoint_single split: if_splits option.splits prod.splits)
  next
    case other
    show ?thesis using assms unfolding appendedAfter_def nextData_def
      by (auto simp: other Let_def appendPoint_single)
  qed
qed

lemma accepted_tick_keeps_clock_in_step:
  assumes "isPlaying s" and "data s \<noteq> []" and "length (data s) \<le> 200"
    and "simTime s = time (last (data s))"
    and "appendedAfter (selectedModel s) (params s) (last (data s)) = Some [q]"
  shows "\<exists>s'. tick s = Some s' \<and> last (data s') = q \<and> simTime s' = time (last (data s'))"
proof -
  have nd: "nextData (selectedModel s) (params s) (data s) = Some (sliceLast 200 (data s @ [q]))"
    using nextData_via_appended[OF assms(2,3)] assms(5) by simp
  have "last (sliceLast 200 (data s @ [q])) = q" by (simp add: last_sliceLast)
  then show ?thesis
    using nd assms(1,4) appendedAfter_time[OF assms(5)] by (simp add: tick_playing)
qed

text \<open>
  C1. The claim is that a tick whose result is not finite changes neither the trajectory
  nor the clock. The updater does return the trajectory unchanged, but \<^verbatim>\<open>setTime\<close> is
  called outside the updater, on every tick. Evaluated on the logistic model with
  \<open>K = 0\<close> and the seed \<open>N = 50\<close>: the step is \<^verbatim>\<open>-Infinity\<close>, the trajectory stays the one
  seed point, and the clock goes from 0 to 0.2.
\<close>

theorem C1_rejected_tick_moves_clock:
  "logisticGrowthDiscrete (initialParams\<lparr> K := Fin 0 \<rparr>) (Fin 50) = NInf
   \<and> tick \<lparr> isPlaying = True, simTime = Fin 0,
            data = [seedPoint ''logistic'' (initialParams\<lparr> K := Fin 0 \<rparr>)],
            selectedModel = ''logistic'', params = initialParams\<lparr> K := Fin 0 \<rparr> \<rparr>
     = Some \<lparr> isPlaying = True, simTime = Fin (1 / 5),
              data = [seedPoint ''logistic'' (initialParams\<lparr> K := Fin 0 \<rparr>)],
              selectedModel = ''logistic'', params = initialParams\<lparr> K := Fin 0 \<rparr> \<rparr>"
proof -
  have r: "logisticGrowthDiscrete (initialParams\<lparr> K := Fin 0 \<rparr>) (Fin 50) = NInf"
    by (simp add: logisticGrowthDiscrete_def initialParams_def jsub_def)
  have sp: "seedPoint ''logistic'' (initialParams\<lparr> K := Fin 0 \<rparr>)
              = \<lparr> time = Fin 0, N = Some (Fin 50), P = None, N1 = None, N2 = None \<rparr>"
    by (simp add: seedPoint_def initialParams_def)
  have n0: "N0 (initialParams\<lparr> K := Fin 0 \<rparr>) = Fin 50"
    and ts: "timeStep (initialParams\<lparr> K := Fin 0 \<rparr>) = Fin (1 / 5)"
    by (simp_all add: initialParams_def)
  show ?thesis
    unfolding sp by (simp add: r tick_def nextData_def Let_def n0 ts)
qed

text \<open>
  C2. The claim is that every step function returns populations that are not negative.
  The two integrators floor each update at zero, the two discrete step functions only
  test their input. Evaluated on the logistic model with \<open>K = 10\<close>, \<open>birthRate = 1\<close>,
  \<open>deathRate = 0\<close> (values the sliders allow) and the seed \<open>N = 50\<close>: the step is
  \<open>50 * (1 + 1 * (1 - 5)) = -150\<close>, and the tick appends that point.
\<close>

theorem C2_logistic_step_negative:
  "logisticGrowthDiscrete
     (initialParams\<lparr> K := Fin 10, birthRate := Fin 1, deathRate := Fin 0 \<rparr>) (Fin 50)
   = Fin (- 150)
   \<and> tick \<lparr> isPlaying = True, simTime = Fin 0,
            data = [\<lparr> time = Fin 0, N = Some (Fin 50), P = None, N1 = None, N2 = None \<rparr>],
            selectedModel = ''logistic'',
            params = initialParams\<lparr> K := Fin 10, birthRate := Fin 1, deathRate := Fin 0 \<rparr> \<rparr>
     = Some \<lparr> isPlaying = True, simTime = Fin (1 / 5),
              data = [\<lparr> time = Fin 0, N = Some (Fin 50), P = None, N1 = None, N2 = None \<rparr>,
                      \<lparr> time = Fin (1 / 5), N = Some (Fin (- 150)), P = None, N1 = None,
                         N2 = None \<rparr>],
              selectedModel = ''logistic'',
              params = initialParams\<lparr> K := Fin 10, birthRate := Fin 1, deathRate := Fin 0 \<rparr> \<rparr>"
proof -
  let ?ps = "initialParams\<lparr> K := Fin 10, birthRate := Fin 1, deathRate := Fin 0 \<rparr>"
  have r: "logisticGrowthDiscrete ?ps (Fin 50) = Fin (- 150)"
    by (simp add: logisticGrowthDiscrete_def initialParams_def jsub_def)
  have n0: "N0 ?ps = Fin 50" and ts: "timeStep ?ps = Fin (1 / 5)"
    by (simp_all add: initialParams_def)
  show ?thesis
    by (simp add: r tick_def nextData_def Let_def n0 ts appendPoint_def)
qed

text \<open>
  C3. The claim is that the step function is given the populations of the last point, a
  stored 0 included. The driver reads them with \<^verbatim>\<open>lastPoint.N || params.N0\<close>, and 0 is
  falsy. Evaluated on the exponential model: with \<open>birthRate = 0\<close> and \<open>deathRate = 1\<close>
  the first tick stores \<open>N = 0\<close>; with the rates back at 0.3 and 0.1 the next tick steps
  from \<open>N0 = 50\<close> and stores 60, where the step from 0 is 0.
\<close>

theorem C3_zero_population_read_as_initial:
  "tick \<lparr> isPlaying = True, simTime = Fin 0,
          data = [\<lparr> time = Fin 0, N = Some (Fin 50), P = None, N1 = None, N2 = None \<rparr>],
          selectedModel = ''exponential'',
          params = initialParams\<lparr> birthRate := Fin 0, deathRate := Fin 1 \<rparr> \<rparr>
   = Some \<lparr> isPlaying = True, simTime = Fin (1 / 5),
            data = [\<lparr> time = Fin 0, N = Some (Fin 50), P = None, N1 = None, N2 = None \<rparr>,
                    \<lparr> time = Fin (1 / 5), N = Some (Fin 0), P = None, N1 = None, N2 = None \<rparr>],
            selectedModel = ''exponential'',
            params = initialParams\<lparr> birthRate := Fin 0, deathRate := Fin 1 \<rparr> \<rparr>
   \<and> tick \<lparr> isPlaying = True, simTime = Fin (1 / 5),
            data = [\<lparr> time = Fin 0, N = Some (Fin 50), P = None, N1 = None, N2 = None \<rparr>,
                    \<lparr> time = Fin (1 / 5), N = Some (Fin 0), P = None, N1 = None, N2 = None \<rparr>],
            selectedModel = ''exponential'', params = initialParams \<rparr>
     = Some \<lparr> isPlaying = True, simTime = Fin (2 / 5),
              data = [\<lparr> time = Fin 0, N = Some (Fin 50), P = None, N1 = None, N2 = None \<rparr>,
                      \<lparr> time = Fin (1 / 5), N = Some (Fin 0), P = None, N1 = None, N2 = None \<rparr>,
                      \<lparr> time = Fin (2 / 5), N = Some (Fin 60), P = None, N1 = None,
                         N2 = None \<rparr>],
              selectedModel = ''exponential'', params = initialParams \<rparr>
   \<and> exponentialGrowthDiscrete initialParams (Fin 0) = Fin 0"
proof -
  let ?ps = "initialParams\<lparr> birthRate := Fin 0, deathRate := Fin 1 \<rparr>"
  have r1: "exponentialGrowthDiscrete ?ps (Fin 50) = Fin 0"
    by (simp add: exponentialGrowthDiscrete_def initialParams_def jsub_def)
  have r2: "exponentialGrowthDiscrete initialParams (Fin 50) = Fin 60"
    by (simp add: exponentialGrowthDiscrete_def initialParams_def jsub_def)
  have r3: "exponentialGrowthDiscrete initialParams (Fin 0) = Fin 0"
    by (simp add: exponentialGrowthDiscrete_def)
  have n0: "N0 ?ps = Fin 50" "N0 initialParams = Fin 50"
    and ts: "timeStep ?ps = Fin (1 / 5)" "timeStep initialParams = Fin (1 / 5)"
    by (simp_all add: initialParams_def)
  have t1: "tick \<lparr> isPlaying = True, simTime = Fin 0,
          data = [\<lparr> time = Fin 0, N = Some (Fin 50), P = None, N1 = None, N2 = None \<rparr>],
          selectedModel = ''exponential'', params = ?ps \<rparr>
   = Some \<lparr> isPlaying = True, simTime = Fin (1 / 5),
            data = [\<lparr> time = Fin 0, N = Some (Fin 50), P = None, N1 = None, N2 = None \<rparr>,
                    \<lparr> time = Fin (1 / 5), N = Some (Fin 0), P = None, N1 = None, N2 = None \<rparr>],
            selectedModel = ''exponential'', params = ?ps \<rparr>"
    by (simp add: r1 tick_def nextData_def Let_def n0 ts appendPoint_def)
  have t2: "tick \<lparr> isPlaying = True, simTime = Fin (1 / 5),
            data = [\<lparr> time = Fin 0, N = Some (Fin 50), P = None, N1 = None, N2 = None \<rparr>,
                    \<lparr> time = Fin (1 / 5), N = Some (Fin 0), P = None, N1 = None, N2 = None \<rparr>],
            selectedModel = ''exponential'', params = initialParams \<rparr>
     = Some \<lparr> isPlaying = True, simTime = Fin (2 / 5),
              data = [\<lparr> time = Fin 0, N = Some (Fin 50), P = None, N1 = None, N2 = None \<rparr>,
                      \<lparr> time = Fin (1 / 5), N = Some (Fin 0), P = None, N1 = None, N2 = None \<rparr>,
                      \<lparr> time = Fin (2 / 5), N = Some (Fin 60), P = None, N1 = None,
                         N2 = None \<rparr>],
              selectedModel = ''exponential'', params = initialParams \<rparr>"
    by (simp add: r2 tick_def nextData_def Let_def n0 ts appendPoint_def)
  show ?thesis using t1 t2 r3 by blast
qed

section \<open>Double-precision arithmetic: properties\<close>

lemma expo_bounds:
  assumes "0 < x"
  shows "2 powi (expo x) \<le> x \<and> x < 2 powi (expo x + 1)"
  using assms
proof (induction x rule: expo.induct)
  case (1 x)
  show ?case
  proof (cases "x < 1")
    case True
    have e: "expo x = expo (2 * x) - 1" using 1(3) True by (subst expo.simps) simp
    define k where "k = expo (2 * x)"
    from 1(1)[OF _ True] 1(3)
    have ih: "2 powi k \<le> 2 * x" "2 * x < 2 powi (k + 1)" by (simp_all add: k_def)
    have p: "(2::real) powi (k - 1) = 2 powi k / 2" "(2::real) powi (k + 1) = 2 * 2 powi k"
      by (simp_all add: power_int_diff power_int_add)
    have "2 powi (k - 1) \<le> x" "x < 2 powi k" using ih unfolding p by linarith+
    then show ?thesis by (simp add: e k_def)
  next
    case False
    show ?thesis
    proof (cases "2 \<le> x")
      case True
      have e: "expo x = expo (x / 2) + 1" using 1(3) False True by (subst expo.simps) simp
      define k where "k = expo (x / 2)"
      from 1(2)[OF _ False True] 1(3)
      have ih: "2 powi k \<le> x / 2" "x / 2 < 2 powi (k + 1)" by (simp_all add: k_def)
      have p: "(2::real) powi (k + 1) = 2 * 2 powi k" "(2::real) powi (k + 1 + 1) = 4 * 2 powi k"
        by (simp_all add: power_int_add)
      have "2 powi (k + 1) \<le> x" "x < 2 powi (k + 1 + 1)" using ih unfolding p by linarith+
      then show ?thesis by (simp only: e k_def)
    next
      case nt: False
      have e: "expo x = 0" using 1(3) False nt by (subst expo.simps) simp
      show ?thesis using False nt by (simp add: e)
    qed
  qed
qed

lemma roundHalfEven_error: "\<bar>of_int (roundHalfEven q) - q\<bar> \<le> 1 / 2"
proof -
  have "of_int \<lfloor>q\<rfloor> \<le> q" "q < of_int \<lfloor>q\<rfloor> + 1" by linarith+
  then show ?thesis by (auto simp: roundHalfEven_def Let_def)
qed

lemma fl_error:
  assumes "fl x = Fin y" and "2 powi (- 1022) \<le> \<bar>x\<bar>"
  shows "\<bar>y - x\<bar> \<le> \<bar>x\<bar> / 2 ^ 53"
proof -
  have pos: "0 < \<bar>x\<bar>" using assms(2) by (smt (verit) zero_less_power_int)
  then have x0: "x \<noteq> 0" by simp
  define e where "e = expo \<bar>x\<bar>"
  define u :: real where "u = 2 powi (e - 52)"
  from expo_bounds[OF pos] have b: "2 powi e \<le> \<bar>x\<bar>" "\<bar>x\<bar> < 2 powi (e + 1)" by (simp_all add: e_def)
  have "(2::real) powi (- 1022) < 2 powi (e + 1)" using assms(2) b(2) by linarith
  then have "- 1022 < e + 1"
    using power_int_increasing[of "e + 1" "- 1022" "2::real"] by (cases "e + 1 \<le> - 1022") simp_all
  then have m: "max e (- 1022) = e" by simp
  have upos: "0 < u" by (simp add: u_def)
  have y: "y = of_int (roundHalfEven (x / u)) * u"
    using assms(1) x0 by (auto simp: fl_def Let_def m e_def[symmetric] u_def[symmetric] split: if_splits)
  have "y - x = (of_int (roundHalfEven (x / u)) - x / u) * u"
    using upos by (simp add: y left_diff_distrib)
  then have "\<bar>y - x\<bar> = \<bar>of_int (roundHalfEven (x / u)) - x / u\<bar> * u"
    using upos by (simp only: abs_mult abs_of_pos)
  also have "\<dots> \<le> (1 / 2) * u" using roundHalfEven_error[of "x / u"] upos by (simp add: mult_right_mono)
  also have "\<dots> = 2 powi e / 2 ^ 53" by (simp add: u_def power_int_diff)
  also have "\<dots> \<le> \<bar>x\<bar> / 2 ^ 53" using b(1) by (simp add: divide_right_mono)
  finally show ?thesis .
qed


lemma roundHalfEven_ge_floor: "\<lfloor>q\<rfloor> \<le> roundHalfEven q"
  by (simp add: roundHalfEven_def Let_def)

lemma fl_nonzero:
  assumes "x \<noteq> 0" and "max (expo \<bar>x\<bar>) (- 1022) - 52 = k" and "2 powi k = u"
  shows "fl x = (if 2 powi 1024 \<le> \<bar>of_int (roundHalfEven (x / u)) * u\<bar>
                 then (if 0 < x then PInf else NInf)
                 else Fin (of_int (roundHalfEven (x / u)) * u))"
  unfolding fl_def Let_def by (simp only: assms if_False)

lemma fl_underflow:
  assumes "0 < x" and "x < 2 powi (- 1075)"
  shows "fl x = Fin 0"
proof -
  define w :: real where "w = 2 powi (- 1075)"
  have wpos: "0 < w" by (simp add: w_def)
  have xw: "x < w" using assms(2) by (simp only: w_def)
  from expo_bounds[of "\<bar>x\<bar>"] assms(1) have b: "2 powi (expo \<bar>x\<bar>) \<le> x" by simp
  then have "(2::real) powi (expo \<bar>x\<bar>) < 2 powi (- 1075)" using assms(2) by linarith
  then have "expo \<bar>x\<bar> < - 1075"
    using power_int_increasing[of "- 1075" "expo \<bar>x\<bar>" "2::real"]
    by (cases "- 1075 \<le> expo \<bar>x\<bar>") simp_all
  then have k: "max (expo \<bar>x\<bar>) (- 1022) - 52 = - 1074" by simp
  have u: "(2::real) powi (- 1074) = 2 * w" by (simp add: w_def)
  have x0: "x \<noteq> 0" using assms(1) by simp
  have q: "0 \<le> x / (2 * w)" "x / (2 * w) < 1 / 2"
    using assms(1) wpos xw by (simp_all add: field_simps)
  then have f: "\<lfloor>x / (2 * w)\<rfloor> = 0" by (simp only: floor_eq_iff) simp
  have r: "roundHalfEven (x / (2 * w)) = 0"
    using q by (simp add: roundHalfEven_def Let_def f)
  have "(2::real) powi 1024 > 0" by simp
  then have nb: "\<not> 2 powi 1024 \<le> \<bar>of_int (0::int) * (2 * w)\<bar>" by simp
  show ?thesis
    by (simp only: fl_nonzero[OF x0 k u] r nb if_False) simp
qed

lemma fl_overflow:
  assumes "2 powi 1024 \<le> x"
  shows "fl x = PInf"
proof -
  have pos: "0 < x" using assms by (smt (verit) zero_less_power_int)
  then have x0: "x \<noteq> 0" by simp
  define e where "e = expo \<bar>x\<bar>"
  define u :: real where "u = 2 powi (e - 52)"
  from expo_bounds[of "\<bar>x\<bar>"] pos have b: "2 powi e \<le> x" "x < 2 powi (e + 1)"
    by (simp_all add: e_def)
  have "(2::real) powi 1024 < 2 powi (e + 1)" using assms b(2) by linarith
  then have e1024: "1024 \<le> e"
    using power_int_increasing[of "e + 1" 1024 "2::real"] by (cases "e + 1 \<le> 1024") simp_all
  then have k: "max (expo \<bar>x\<bar>) (- 1022) - 52 = e - 52" by (simp add: e_def)
  have upos: "0 < u" by (simp add: u_def)
  have ue: "2 powi e = 2 ^ 52 * u" by (simp add: u_def power_int_diff)
  have "(2::real) ^ 52 \<le> x / u" using b(1) upos by (simp add: ue field_simps)
  then have "(2::int) ^ 52 \<le> \<lfloor>x / u\<rfloor>" by (simp add: le_floor_iff)
  then have "(2::int) ^ 52 \<le> roundHalfEven (x / u)"
    using roundHalfEven_ge_floor[of "x / u"] by linarith
  then have "of_int ((2::int) ^ 52) \<le> (of_int (roundHalfEven (x / u)) :: real)"
    by (simp only: of_int_le_iff)
  then have "(2::real) ^ 52 \<le> of_int (roundHalfEven (x / u))" by simp
  then have "2 ^ 52 * u \<le> of_int (roundHalfEven (x / u)) * u"
    using upos by (simp only: mult_le_cancel_right_pos)
  moreover have "(2::real) powi 1024 \<le> 2 powi e"
    using e1024 by (intro power_int_increasing) simp_all
  ultimately have "2 powi 1024 \<le> of_int (roundHalfEven (x / u)) * u" using ue by linarith
  then have big: "2 powi 1024 \<le> \<bar>of_int (roundHalfEven (x / u)) * u\<bar>" by linarith
  show ?thesis
    by (simp only: fl_nonzero[OF x0 k u_def[symmetric]] big pos if_True)
qed


text \<open>Evaluating a rounding at a numeral.\<close>

lemmas fl_eval = fl_def expo.simps roundHalfEven_def Let_def

lemma steps64_Fin:
  assumes "0 < ts" "0 < h" "dt ps = Fin h" "fl (ts / h) = Fin q" "0 < q"
  shows "steps64 ps (Fin ts) = Fin (of_int \<lceil>q\<rceil>)" and "1 \<le> \<lceil>q\<rceil>"
    and "actualDt64 ps (Fin ts) = fl (ts / of_int \<lceil>q\<rceil>)"
proof -
  have hne: "h \<noteq> 0" using assms(2) by simp
  show s: "steps64 ps (Fin ts) = Fin (of_int \<lceil>q\<rceil>)"
    using hne by (simp add: steps64_def ddiv_def assms(3,4))
  show one: "1 \<le> \<lceil>q\<rceil>" using zero_less_ceiling[of q] assms(5) by linarith
  then have "0 < \<lceil>q\<rceil>" by linarith
  then have "0 < (of_int \<lceil>q\<rceil> :: real)" by (simp only: of_int_0_less_iff)
  then have ne: "(of_int \<lceil>q\<rceil> :: real) \<noteq> 0" by linarith
  show "actualDt64 ps (Fin ts) = fl (ts / of_int \<lceil>q\<rceil>)"
    unfolding actualDt64_def s using ne by (simp add: ddiv_def)
qed

text \<open>
  C6, as stated, fails. The exponential step does not return the real number
  \<open>N * (1 + birthRate - deathRate)\<close>. With \<open>birthRate = 0\<close>, \<open>deathRate = 0.45\<close> (values
  of the sliders) and \<open>N = 50\<close> it returns the double \<open>27.500000000000004\<close>, which is
  neither 27.5 nor 50 times one minus the double nearest to 0.45; with \<open>birthRate = 1\<close>,
  \<open>deathRate = 0\<close> and \<open>N = 2 ^ 1023\<close> it returns \<^verbatim>\<open>Infinity\<close>.
\<close>

theorem C6_exact_product_counterexample:
  "fl (45 / 100) = Fin (8106479329266893 / 2 ^ 54)
   \<and> exponentialGrowthDiscrete64
         (initialParams\<lparr> birthRate := Fin 0, deathRate := fl (45 / 100) \<rparr>) (Fin 50)
       = Fin (7740561859543041 / 2 ^ 48)
   \<and> (7740561859543041 / 2 ^ 48 :: real) \<noteq> 50 * (1 + 0 - 8106479329266893 / 2 ^ 54)
   \<and> (7740561859543041 / 2 ^ 48 :: real) \<noteq> 50 * (1 + 0 - 45 / 100)
   \<and> exponentialGrowthDiscrete64
         (initialParams\<lparr> birthRate := Fin 1, deathRate := Fin 0 \<rparr>) (Fin (2 powi 1023))
       = PInf"
proof -
  have d: "fl (45 / 100) = Fin (8106479329266893 / 2 ^ 54)" by (simp add: fl_eval)
  have "exponentialGrowthDiscrete64
          (initialParams\<lparr> birthRate := Fin 0, deathRate := fl (45 / 100) \<rparr>) (Fin 50)
        = Fin (7740561859543041 / 2 ^ 48)"
    by (simp add: exponentialGrowthDiscrete64_def dsub_def dadd_def dmul_def jsub_def d fl_eval)
  moreover have "exponentialGrowthDiscrete64
          (initialParams\<lparr> birthRate := Fin 1, deathRate := Fin 0 \<rparr>) (Fin (2 powi 1023))
        = PInf"
  proof -
    have r: "dsub (Fin 1) (Fin 0) = Fin 1" by (simp add: dsub_def jsub_def fl_eval)
    have g: "dadd (Fin 1) (Fin 1) = Fin 2" by (simp add: dadd_def fl_eval)
    have "(2::real) powi 1024 = 2 powi 1023 * 2" by (simp add: power_int_add[of 2 1023 1, simplified])
    then have "fl (2 powi 1023 * 2) = PInf" by (intro fl_overflow) (simp only: order_refl)
    then have m: "dmul (Fin (2 powi 1023)) (Fin 2) = PInf" by (simp only: dmul_def jmul.simps rounded.simps)
    have n: "\<not> jle (Fin (2 powi 1023)) (Fin 0)" by (simp only: jle.simps not_le zero_less_power_int zero_less_numeral)
    have q: "birthRate (initialParams\<lparr> birthRate := Fin 1, deathRate := Fin 0 \<rparr>) = Fin 1"
      "deathRate (initialParams\<lparr> birthRate := Fin 1, deathRate := Fin 0 \<rparr>) = Fin 0"
      by simp_all
    show ?thesis
      unfolding exponentialGrowthDiscrete64_def Let_def
      by (simp only: n if_False q r g m)
  qed
  ultimately show ?thesis using d by simp
qed

text \<open>
  C6, amended. For every \<open>N > 0\<close> the exponential step returns the double-precision
  product of \<open>N\<close> and the double-precision sum of 1 and the double-precision difference
  \<open>birthRate - deathRate\<close>, each of the three operations rounded to the nearest double. It
  is the real number \<open>N * (1 + birthRate - deathRate)\<close> whenever none of the three results
  needs rounding. With \<open>N = 50\<close> and the doubles nearest to 0.3 and 0.1 it is 60.
\<close>

theorem C6_exponential_step_rounded:
  assumes "jlt (Fin 0) n"
  shows "exponentialGrowthDiscrete64 ps n
           = dmul n (dadd (Fin 1) (dsub (birthRate ps) (deathRate ps)))
         \<and> (\<forall>x y z. n = Fin x \<and> birthRate ps = Fin y \<and> deathRate ps = Fin z
                \<and> fl (y - z) = Fin (y - z)
                \<and> fl (1 + (y - z)) = Fin (1 + (y - z))
                \<and> fl (x * (1 + (y - z))) = Fin (x * (1 + (y - z)))
               \<longrightarrow> exponentialGrowthDiscrete64 ps n = Fin (x * (1 + y - z)))"
proof -
  have le: "\<not> jle n (Fin 0)" using assms by (cases n) auto
  then have one: "exponentialGrowthDiscrete64 ps n
                    = dmul n (dadd (Fin 1) (dsub (birthRate ps) (deathRate ps)))"
    by (simp add: exponentialGrowthDiscrete64_def)
  have "exponentialGrowthDiscrete64 ps n = Fin (x * (1 + y - z))"
    if "n = Fin x" "birthRate ps = Fin y" "deathRate ps = Fin z"
      "fl (y - z) = Fin (y - z)" "fl (1 + (y - z)) = Fin (1 + (y - z))"
      "fl (x * (1 + (y - z))) = Fin (x * (1 + (y - z)))" for x y z
  proof -
    have "dsub (Fin y) (Fin z) = Fin (y - z)" using that(4) by (simp add: dsub_def jsub_def)
    moreover have "dadd (Fin 1) (Fin (y - z)) = Fin (1 + (y - z))"
      using that(5) by (simp add: dadd_def)
    moreover have "dmul (Fin x) (Fin (1 + (y - z))) = Fin (x * (1 + (y - z)))"
      using that(6) by (simp add: dmul_def)
    moreover have "x * (1 + (y - z)) = x * (1 + y - z)" by simp
    ultimately show ?thesis using one that(1,2,3) by simp
  qed
  then show ?thesis using one by blast
qed

theorem C6_exponential_step_rounded_witness:
  "jlt (Fin 0) (Fin 50)
   \<and> fl (3 / 10) = Fin (5404319552844595 / 2 ^ 54)
   \<and> fl (1 / 10) = Fin (3602879701896397 / 2 ^ 55)
   \<and> exponentialGrowthDiscrete64
         (initialParams\<lparr> birthRate := fl (3 / 10), deathRate := fl (1 / 10) \<rparr>) (Fin 50)
       = Fin 60
   \<and> exponentialGrowthDiscrete64
         (initialParams\<lparr> birthRate := Fin (1 / 2), deathRate := Fin (1 / 4) \<rparr>) (Fin 50)
       = Fin (50 * (1 + 1 / 2 - 1 / 4))"
proof -
  let ?ps = "initialParams\<lparr> birthRate := fl (3 / 10), deathRate := fl (1 / 10) \<rparr>"
  let ?qs = "initialParams\<lparr> birthRate := Fin (1 / 2), deathRate := Fin (1 / 4) \<rparr>"
  have h: "jlt (Fin 0) (Fin 50)" by simp
  have b: "fl (3 / 10) = Fin (5404319552844595 / 2 ^ 54)"
    and d: "fl (1 / 10) = Fin (3602879701896397 / 2 ^ 55)"
    by (simp_all add: fl_eval)
  have v: "dmul (Fin 50) (dadd (Fin 1) (dsub (birthRate ?ps) (deathRate ?ps))) = Fin 60"
    by (simp add: dsub_def dadd_def dmul_def jsub_def b d fl_eval)
  from C6_exponential_step_rounded[OF h, of ?ps] v
  have one: "exponentialGrowthDiscrete64 ?ps (Fin 50) = Fin 60" by simp
  have e: "fl (1 / 2 - 1 / 4) = Fin (1 / 2 - 1 / 4)"
    "fl (1 + (1 / 2 - 1 / 4)) = Fin (1 + (1 / 2 - 1 / 4))"
    "fl (50 * (1 + (1 / 2 - 1 / 4))) = Fin (50 * (1 + (1 / 2 - 1 / 4)))"
    by (simp_all add: fl_eval)
  have p: "birthRate ?qs = Fin (1 / 2)" "deathRate ?qs = Fin (1 / 4)" by simp_all
  from C6_exponential_step_rounded[OF h, of ?qs] p e
  have two: "exponentialGrowthDiscrete64 ?qs (Fin 50) = Fin (50 * (1 + 1 / 2 - 1 / 4))" by blast
  show ?thesis using h b d one two by blast
qed


text \<open>
  C9, as stated, fails. With \<open>timeStep = 0.45\<close> and \<open>dt = 0.045\<close> (values of the
  sliders) the integrators take 10 substeps of the double nearest to 0.045, and 10 times
  that is not \<open>timeStep\<close>, as a real product and as a double product. The substep count
  is the ceiling of the rounded quotient, not of the quotient: for the initial
  \<open>timeStep = 0.2\<close> and \<open>dt = 0.02\<close> it is 10 where the quotient of the two doubles has
  ceiling 11, and for 0.45 and 0.015 it is 31 where the decimal quotient is 30. A quotient
  that rounds to zero gives 0 substeps, and one that overflows gives \<^verbatim>\<open>Infinity\<close>
  substeps, with which the integrator does not return.
\<close>

theorem C9_exact_partition_counterexample:
  "steps64 (initialParams\<lparr> dt := fl (45 / 1000) \<rparr>) (fl (45 / 100)) = Fin 10
   \<and> actualDt64 (initialParams\<lparr> dt := fl (45 / 1000) \<rparr>) (fl (45 / 100))
       = Fin (3242591731706757 / 2 ^ 56)
   \<and> fl (45 / 100) = Fin (8106479329266893 / 2 ^ 54)
   \<and> (10 * (3242591731706757 / 2 ^ 56) :: real) \<noteq> 8106479329266893 / 2 ^ 54
   \<and> dmul (steps64 (initialParams\<lparr> dt := fl (45 / 1000) \<rparr>) (fl (45 / 100)))
          (actualDt64 (initialParams\<lparr> dt := fl (45 / 1000) \<rparr>) (fl (45 / 100)))
       \<noteq> fl (45 / 100)
   \<and> fl (1 / 5) = Fin (3602879701896397 / 2 ^ 54)
   \<and> fl (1 / 50) = Fin (5764607523034235 / 2 ^ 58)
   \<and> steps64 (initialParams\<lparr> dt := fl (1 / 50) \<rparr>) (fl (1 / 5)) = Fin 10
   \<and> \<lceil>(3602879701896397 / 2 ^ 54) / (5764607523034235 / 2 ^ 58) :: real\<rceil> = 11
   \<and> steps64 (initialParams\<lparr> dt := fl (15 / 1000) \<rparr>) (fl (45 / 100)) = Fin 31
   \<and> \<lceil>(45 / 100) / (15 / 1000) :: real\<rceil> = 30
   \<and> steps64 (initialParams\<lparr> dt := Fin (2 powi 600) \<rparr>) (Fin (2 powi (- 600))) = Fin 0
   \<and> steps64 (initialParams\<lparr> dt := Fin (2 powi (- 600)) \<rparr>) (Fin (2 powi 600)) = PInf
   \<and> predatorPreyODE64 (initialParams\<lparr> dt := Fin (2 powi (- 600)) \<rparr>) (Fin 50) (Fin 50)
         (Fin (2 powi 600)) = None"
proof -
  have a: "fl (45 / 100) = Fin (8106479329266893 / 2 ^ 54)"
    and b: "fl (45 / 1000) = Fin (3242591731706757 / 2 ^ 56)"
    and c: "fl (1 / 5) = Fin (3602879701896397 / 2 ^ 54)"
    and d: "fl (1 / 50) = Fin (5764607523034235 / 2 ^ 58)"
    and e: "fl (15 / 1000) = Fin (1080863910568919 / 2 ^ 56)"
    by (simp_all add: fl_eval)
  have s1: "steps64 (initialParams\<lparr> dt := fl (45 / 1000) \<rparr>) (fl (45 / 100)) = Fin 10"
    by (simp add: steps64_def ddiv_def a b fl_eval)
  have a1: "actualDt64 (initialParams\<lparr> dt := fl (45 / 1000) \<rparr>) (fl (45 / 100))
              = Fin (3242591731706757 / 2 ^ 56)"
    unfolding actualDt64_def s1 by (simp add: ddiv_def a fl_eval)
  have p1: "dmul (Fin 10) (Fin (3242591731706757 / 2 ^ 56)) \<noteq> Fin (8106479329266893 / 2 ^ 54)"
    by (simp add: dmul_def fl_eval)
  have s2: "steps64 (initialParams\<lparr> dt := fl (1 / 50) \<rparr>) (fl (1 / 5)) = Fin 10"
    by (simp add: steps64_def ddiv_def c d fl_eval)
  have c2: "\<lceil>(3602879701896397 / 2 ^ 54) / (5764607523034235 / 2 ^ 58) :: real\<rceil> = 11"
    by (simp add: ceiling_eq_iff)
  have s3: "steps64 (initialParams\<lparr> dt := fl (15 / 1000) \<rparr>) (fl (45 / 100)) = Fin 31"
    by (simp add: steps64_def ddiv_def a e fl_eval)
  have c3: "\<lceil>(45 / 100) / (15 / 1000) :: real\<rceil> = 30" by simp
  have "(2::real) powi (- 600) / 2 powi 600 = 2 powi (- 1200)"
    by (simp add: power_int_diff[symmetric])
  moreover have "(2::real) powi (- 1200) < 2 powi (- 1075)"
    by (intro power_int_strict_increasing) simp_all
  ultimately have "fl (2 powi (- 600) / 2 powi 600) = Fin 0"
    by (intro fl_underflow) simp_all
  then have s4: "steps64 (initialParams\<lparr> dt := Fin (2 powi 600) \<rparr>) (Fin (2 powi (- 600))) = Fin 0"
    by (simp add: steps64_def ddiv_def)
  have "(2::real) powi 600 / 2 powi (- 600) = 2 powi 1200"
    by (simp add: power_int_diff[symmetric])
  moreover have "(2::real) powi 1024 \<le> 2 powi 1200"
    by (intro power_int_increasing) simp_all
  ultimately have "fl (2 powi 600 / 2 powi (- 600)) = PInf"
    by (intro fl_overflow) simp_all
  then have s5: "steps64 (initialParams\<lparr> dt := Fin (2 powi (- 600)) \<rparr>) (Fin (2 powi 600)) = PInf"
    by (simp add: steps64_def ddiv_def)
  have o5: "predatorPreyODE64 (initialParams\<lparr> dt := Fin (2 powi (- 600)) \<rparr>) (Fin 50) (Fin 50)
              (Fin (2 powi 600)) = None"
    unfolding predatorPreyODE64_def s5 by (simp add: forLoop_PInf)
  show ?thesis
    unfolding s1 a1 s2 s3 s4 s5 o5 using a c d p1 c2 c3 by simp
qed


text \<open>
  C9, amended. For \<open>timeStep > 0\<close> and \<open>dt > 0\<close> whose double-precision quotient \<open>q\<close>
  is finite and not zero, the number of substeps is \<open>\<lceil>q\<rceil>\<close>, which is at least 1, and
  the size of a substep is the double-precision quotient of \<open>timeStep\<close> by that number.
  Number times size is \<open>timeStep\<close> up to the rounding of that division: when the size is
  a normal double they differ by at most \<open>timeStep / 2 ^ 53\<close>. Both integrators, on
  populations that are not \<^verbatim>\<open><= 0\<close>, return the result of exactly that many passes of
  their Euler update with that substep size.
\<close>

theorem C9_substeps_rounded:
  assumes "0 < ts" and "0 < h" and "dt ps = Fin h" and "fl (ts / h) = Fin q" and "0 < q"
  shows "steps64 ps (Fin ts) = Fin (of_int \<lceil>q\<rceil>)
         \<and> 1 \<le> \<lceil>q\<rceil>
         \<and> actualDt64 ps (Fin ts) = fl (ts / of_int \<lceil>q\<rceil>)
         \<and> (\<forall>v. fl (ts / of_int \<lceil>q\<rceil>) = Fin v \<and> 2 powi (- 1022) \<le> ts / of_int \<lceil>q\<rceil>
               \<longrightarrow> \<bar>of_int \<lceil>q\<rceil> * v - ts\<bar> \<le> ts / 2 ^ 53)
         \<and> (\<not> jle x (Fin 0) \<and> \<not> jle y (Fin 0) \<longrightarrow>
              predatorPreyODE64 ps x y (Fin ts)
                = Some ((predatorPreyEuler64 ps (fl (ts / of_int \<lceil>q\<rceil>)) ^^ nat \<lceil>q\<rceil>) (x, y))
              \<and> competitionODE64 ps x y (Fin ts)
                = Some ((competitionEuler64 ps (fl (ts / of_int \<lceil>q\<rceil>)) ^^ nat \<lceil>q\<rceil>) (x, y)))"
proof -
  note st = steps64_Fin[OF assms]
  define m :: real where "m = of_int \<lceil>q\<rceil>"
  have mpos: "0 < m" using st(2) by (simp add: m_def)
  have bound: "\<bar>m * v - ts\<bar> \<le> ts / 2 ^ 53"
    if v: "fl (ts / m) = Fin v" and nrm: "2 powi (- 1022) \<le> ts / m" for v
  proof -
    have qpos: "0 < ts / m" using assms(1) mpos by simp
    then have "2 powi (- 1022) \<le> \<bar>ts / m\<bar>" using nrm by linarith
    from fl_error[OF v this] qpos have "\<bar>v - ts / m\<bar> \<le> (ts / m) / 2 ^ 53" by simp
    then have "m * \<bar>v - ts / m\<bar> \<le> m * ((ts / m) / 2 ^ 53)"
      using mpos by (simp only: mult_le_cancel_left_pos)
    moreover have "m * \<bar>v - ts / m\<bar> = \<bar>m * v - ts\<bar>"
    proof -
      have "m * v - ts = m * (v - ts / m)" using mpos by (simp add: right_diff_distrib)
      then show ?thesis using mpos by (simp only: abs_mult abs_of_pos)
    qed
    moreover have "m * ((ts / m) / 2 ^ 53) = ts / 2 ^ 53" using mpos by simp
    ultimately show ?thesis by linarith
  qed
  have n: "nat \<lceil>real_of_int \<lceil>q\<rceil>\<rceil> - 0 = nat \<lceil>q\<rceil>" by simp
  have pp: "predatorPreyODE64 ps x y (Fin ts)
          = Some ((predatorPreyEuler64 ps (fl (ts / of_int \<lceil>q\<rceil>)) ^^ nat \<lceil>q\<rceil>) (x, y))"
    if "\<not> jle x (Fin 0)" "\<not> jle y (Fin 0)"
    using that by (simp only: predatorPreyODE64_def st(1) st(3) forLoop_Fin n if_False simp_thms)
  have cp: "competitionODE64 ps x y (Fin ts)
          = Some ((competitionEuler64 ps (fl (ts / of_int \<lceil>q\<rceil>)) ^^ nat \<lceil>q\<rceil>) (x, y))"
    if "\<not> jle x (Fin 0)" "\<not> jle y (Fin 0)"
    using that by (simp only: competitionODE64_def st(1) st(3) forLoop_Fin n if_False simp_thms)
  show ?thesis using st bound[unfolded m_def] pp cp by blast
qed

theorem C9_substeps_rounded_witness:
  "(0::real) < 3602879701896397 / 2 ^ 54 \<and> (0::real) < 5764607523034235 / 2 ^ 58
   \<and> fl (1 / 5) = Fin (3602879701896397 / 2 ^ 54)
   \<and> fl (1 / 50) = Fin (5764607523034235 / 2 ^ 58)
   \<and> fl ((3602879701896397 / 2 ^ 54) / (5764607523034235 / 2 ^ 58)) = Fin 10
   \<and> steps64 (initialParams\<lparr> dt := fl (1 / 50) \<rparr>) (fl (1 / 5)) = Fin 10
   \<and> actualDt64 (initialParams\<lparr> dt := fl (1 / 50) \<rparr>) (fl (1 / 5))
       = Fin (5764607523034235 / 2 ^ 58)
   \<and> \<bar>10 * (5764607523034235 / 2 ^ 58) - 3602879701896397 / 2 ^ 54 :: real\<bar>
       \<le> (3602879701896397 / 2 ^ 54) / 2 ^ 53
   \<and> predatorPreyODE64 (initialParams\<lparr> dt := fl (1 / 50) \<rparr>) (Fin 50) (Fin 50) (fl (1 / 5))
       = Some ((predatorPreyEuler64 (initialParams\<lparr> dt := fl (1 / 50) \<rparr>)
                  (Fin (5764607523034235 / 2 ^ 58)) ^^ 10) (Fin 50, Fin 50))
   \<and> competitionODE64 (initialParams\<lparr> dt := fl (1 / 50) \<rparr>) (Fin 50) (Fin 50) (fl (1 / 5))
       = Some ((competitionEuler64 (initialParams\<lparr> dt := fl (1 / 50) \<rparr>)
                  (Fin (5764607523034235 / 2 ^ 58)) ^^ 10) (Fin 50, Fin 50))"
proof -
  let ?ts = "3602879701896397 / 2 ^ 54 :: real" and ?h = "5764607523034235 / 2 ^ 58 :: real"
  let ?ps = "initialParams\<lparr> dt := fl (1 / 50) \<rparr>"
  have c: "fl (1 / 5) = Fin ?ts" and d: "fl (1 / 50) = Fin ?h" by (simp_all add: fl_eval)
  have p1: "0 < ?ts" and p2: "0 < ?h" by simp_all
  have dt: "dt ?ps = Fin ?h" by (simp add: d)
  have q: "fl (?ts / ?h) = Fin 10" by (simp add: fl_eval)
  have q0: "(0::real) < 10" by simp
  have cl: "\<lceil>10::real\<rceil> = 10" by simp
  have v: "fl (?ts / of_int 10) = Fin ?h" by (simp add: fl_eval)
  have nrm: "2 powi (- 1022) \<le> ?ts / of_int 10"
  proof -
    have "(2::real) powi (- 1022) \<le> 2 powi (- 10)" by (intro power_int_increasing) simp_all
    also have "\<dots> \<le> ?ts / of_int 10" by simp
    finally show ?thesis .
  qed
  have pos: "\<not> jle (Fin 50) (Fin 0) \<and> \<not> jle (Fin 50) (Fin 0)" by simp
  have n: "nat 10 = 10" by simp
  note th = C9_substeps_rounded[OF p1 p2 dt q q0, of "Fin 50" "Fin 50", unfolded cl v n]
  from th have s: "steps64 ?ps (Fin ?ts) = Fin 10" by simp
  from th have a: "actualDt64 ?ps (Fin ?ts) = Fin ?h" by blast
  from th v nrm have b: "\<bar>of_int 10 * ?h - ?ts\<bar> \<le> ?ts / 2 ^ 53" by blast
  from th pos have o: "predatorPreyODE64 ?ps (Fin 50) (Fin 50) (Fin ?ts)
       = Some ((predatorPreyEuler64 ?ps (Fin ?h) ^^ 10) (Fin 50, Fin 50))"
    "competitionODE64 ?ps (Fin 50) (Fin 50) (Fin ?ts)
       = Some ((competitionEuler64 ?ps (Fin ?h) ^^ 10) (Fin 50, Fin 50))" by blast+
  show ?thesis unfolding c using p1 p2 c d q s a b o by simp
qed

end
